theory Spec2Isabelle
  imports Complex_Main "HOL-Library.Sublist"
begin

section \<open>Outfit-to-wardrobe matching (outfit\_with\_wardrobe.py, outfit\_service.py)\<close>

text \<open>
  Conventions of the embedding.
  \<^item> A Python value that is either \<open>None\<close> or a \<open>str\<close> is a \<open>string option\<close>.
  \<^item> A suggested item is a Python \<open>dict\<close>: a map from key to such a value, so that
    a key can be absent, present with \<open>None\<close>, or present with a string.
  \<^item> A raised exception is \<open>Inl\<close> of a \<open>py_error\<close>; a returned value is \<open>Inr\<close>.
  \<^item> Scores are Python numbers: \<open>int\<close> until a \<open>float\<close> is added, then IEEE 754
    binary64. A number is the rational it denotes, and every operation that the source
    performs on a \<open>float\<close> is the exact operation followed by the rounding \<open>fl\<close> to the
    nearest binary64 value. The literal \<open>0.7\<close> is \<open>fl (7 / 10)\<close>.
  \<^item> Characters are the code points 0..255; on those \<open>str.lower\<close> changes only
    \<open>A\<close>..\<open>Z\<close> into ASCII, which is all the pattern \<open>[^a-z0-9]\<close> keeps.
\<close>

datatype py_error = KeyError | TypeError | ValueError

type_synonym pystr = "string option"

subsection \<open>Python floats\<close>

text \<open>
  \<open>fl\<close> rounds a rational to the nearest binary64 value, ties to the even significand,
  as IEEE 754 prescribes for \<open>+\<close>, \<open>-\<close>, \<open>*\<close>, \<open>/\<close> and as CPython does when it
  converts an \<open>int\<close>. With \<open>2 ^ e \<le> |x| < 2 ^ (e + 1)\<close> the spacing of the values around
  \<open>x\<close> is \<open>2 ^ (e - 52)\<close>, and \<open>2 ^ (- 1074)\<close> below the smallest normal number.
  Overflow is left out: the scores, their sums and the lengths of descriptions stay far
  below \<open>2 ^ 1024\<close>. \<open>bit_length\<close> is the number of binary digits of a positive
  integer; with \<open>p / q\<close> the fraction \<open>|x|\<close> in lowest terms, \<open>e\<close> is the difference of
  the bit lengths of \<open>p\<close> and \<open>q\<close>, or one less.
\<close>

function bit_length :: "int \<Rightarrow> int" where
  "bit_length n = (if n \<le> 0 then 0 else bit_length (n div 2) + 1)"
  by pat_completeness auto
termination
  by (relation "measure nat") auto

declare bit_length.simps [simp del]

definition pow2 :: "int \<Rightarrow> rat" where
  "pow2 k = (if 0 \<le> k then 2 ^ nat k else 1 / 2 ^ nat (- k))"

definition round_half_even :: "rat \<Rightarrow> int" where
  "round_half_even n =
     (let f = \<lfloor>n\<rfloor>; d = n - of_int f
      in if d < 1 / 2 then f else if 1 / 2 < d then f + 1 else if even f then f else f + 1)"

definition fl :: "rat \<Rightarrow> rat" where
  "fl x =
     (if x = 0 then 0
      else
        let a = \<bar>x\<bar>;
            (p, q) = quotient_of a;
            e0 = bit_length p - bit_length q;
            e = (if pow2 e0 \<le> a then e0 else e0 - 1);
            u = pow2 (max e (- 1022) - 52)
        in sgn x * of_int (round_half_even (a / u)) * u)"

definition fadd :: "rat \<Rightarrow> rat \<Rightarrow> rat" where
  "fadd x y = fl (x + y)"

definition fsub :: "rat \<Rightarrow> rat \<Rightarrow> rat" where
  "fsub x y = fl (x - y)"

definition fmul :: "rat \<Rightarrow> rat \<Rightarrow> rat" where
  "fmul x y = fl (x * y)"

definition fdiv :: "rat \<Rightarrow> rat \<Rightarrow> rat" where
  "fdiv x y = fl (x / y)"

subsection \<open>Values that need no rounding\<close>

lemma bit_length_pow2: "bit_length (2 ^ k) = int k + 1"
proof (induction k)
  case 0
  show ?case by (simp add: bit_length.simps [of 1] bit_length.simps [of 0])
next
  case (Suc k)
  have "bit_length (2 ^ Suc k) = bit_length (2 ^ Suc k div 2) + 1"
    by (subst bit_length.simps) simp
  then show ?case using Suc by simp
qed

lemma pow2_nonpos: "j \<le> 0 \<Longrightarrow> pow2 j = 1 / 2 ^ nat (- j)"
  by (cases "j = 0") (simp_all add: pow2_def)

lemma round_half_even_int: "round_half_even (of_int m) = m"
  by (simp add: round_half_even_def)

lemma fl_dyadic:
  assumes "x \<noteq> 0" and q: "quotient_of \<bar>x\<bar> = (p, 2 ^ k)" and p: "bit_length p \<le> 53" and k: "k \<le> 1074"
  shows "fl x = x"
proof -
  define a where "a = \<bar>x\<bar>"
  have a: "a = of_int p / 2 ^ k" using quotient_of_div [OF q] by (simp add: a_def)
  define e0 where "e0 = bit_length p - bit_length (2 ^ k)"
  define e where "e = (if pow2 e0 \<le> a then e0 else e0 - 1)"
  define j where "j = max e (- 1022) - 52"
  have "e0 \<le> 52 - int k" using p by (simp add: e0_def bit_length_pow2)
  moreover have "e \<le> e0" by (simp add: e_def)
  ultimately have j: "j \<le> - int k" using k by (simp add: j_def)
  then have u: "pow2 j = 1 / 2 ^ nat (- j)" by (simp add: pow2_nonpos)
  have kj: "k \<le> nat (- j)" using j by simp
  have "a / pow2 j = of_int p * (2 ^ nat (- j) / 2 ^ k)" by (simp add: a u)
  also have "(2::rat) ^ nat (- j) / 2 ^ k = 2 ^ (nat (- j) - k)"
    using kj by (simp add: power_diff)
  finally have n: "a / pow2 j = of_int (p * 2 ^ (nat (- j) - k))" by simp
  have nz: "pow2 j \<noteq> 0" by (simp add: u)
  have "fl x = sgn x * of_int (round_half_even (a / pow2 j)) * pow2 j"
    using assms(1) q unfolding j_def e_def e0_def a_def by (simp add: fl_def Let_def)
  also have "\<dots> = sgn x * (a / pow2 j) * pow2 j"
    unfolding n round_half_even_int ..
  also have "\<dots> = sgn x * a" using nz by simp
  also have "\<dots> = x" unfolding a_def by (metis mult.commute abs_mult_sgn)
  finally show ?thesis .
qed

text \<open>
  A fraction \<open>p / q\<close> in lowest terms whose denominator is a power of two up to
  \<open>2 ^ 1074\<close> and whose numerator has at most 53 binary digits is a binary64 value, and
  rounding returns it. Evaluation tests this first.
\<close>

definition small_dyadic :: "int \<Rightarrow> int \<Rightarrow> bool" where
  "small_dyadic p q =
     (let k = nat (bit_length q - 1) in q = 2 ^ k \<and> bit_length p \<le> 53 \<and> k \<le> 1074)"

lemma fl_code [code]:
  "fl x =
     (if x = 0 then 0
      else
        let a = \<bar>x\<bar>;
            (p, q) = quotient_of a
        in if small_dyadic p q then x
           else
             let e0 = bit_length p - bit_length q;
                 e = (if pow2 e0 \<le> a then e0 else e0 - 1);
                 u = pow2 (max e (- 1022) - 52)
             in sgn x * of_int (round_half_even (a / u)) * u)"
proof (cases "x = 0")
  case True
  then show ?thesis by (simp add: fl_def)
next
  case False
  obtain p q where pq: "quotient_of \<bar>x\<bar> = (p, q)" by (cases "quotient_of \<bar>x\<bar>")
  show ?thesis
  proof (cases "small_dyadic p q")
    case True
    then have "quotient_of \<bar>x\<bar> = (p, 2 ^ nat (bit_length q - 1))"
      and "bit_length p \<le> 53" and "nat (bit_length q - 1) \<le> 1074"
      using pq by (simp_all add: small_dyadic_def Let_def)
    from fl_dyadic [OF False this] have "fl x = x" .
    then show ?thesis using False pq True by (simp add: Let_def)
  next
    case no: False
    then show ?thesis using False pq by (simp add: fl_def Let_def)
  qed
qed

subsection \<open>difflib.SequenceMatcher(None, a, b).ratio()\<close>

text \<open>
  The similarity of two descriptions is the ratio of Python's standard
  \<open>difflib.SequenceMatcher\<close>, built with \<open>isjunk = None\<close> and the default
  \<open>autojunk = True\<close>. \<open>b2j\<close> maps an element of \<open>b\<close> to the increasing list of its
  positions; with at least 200 elements in \<open>b\<close>, an element occurring more than
  \<open>n // 100 + 1\<close> times is "popular" and is deleted from the table. No element is junk.
\<close>

definition b2j :: "string \<Rightarrow> char \<Rightarrow> nat list" where
  "b2j b elt =
     (let idxs = filter (\<lambda>j. b ! j = elt) [0..<length b];
          n = length b
      in if n \<ge> 200 \<and> length idxs > n div 100 + 1 then [] else idxs)"

type_synonym match = "nat \<times> nat \<times> nat"

text \<open>
  One pass of the inner loop of \<open>find_longest_match\<close>, for row \<open>i\<close> and column \<open>j\<close>:
  \<open>k = newj2len[j] = j2len.get(j-1, 0) + 1\<close>, then the best block is replaced when
  \<open>k > bestsize\<close>. The dictionaries \<open>j2len\<close> are functions with default 0; the key
  \<open>j - 1 = -1\<close> is never present.
\<close>

fun flm_inner :: "(nat \<Rightarrow> nat) \<Rightarrow> nat \<Rightarrow> (nat \<Rightarrow> nat) \<times> match \<Rightarrow> nat \<Rightarrow> (nat \<Rightarrow> nat) \<times> match" where
  "flm_inner j2len i (newj2len, (besti, bestj, bestsize)) j =
     (let k = (if j = 0 then 0 else j2len (j - 1)) + 1;
          newj2len' = newj2len(j := k)
      in if k > bestsize then (newj2len', (i + 1 - k, j + 1 - k, k))
         else (newj2len', (besti, bestj, bestsize)))"

text \<open>
  One row: the positions of \<open>a[i]\<close> in \<open>b\<close>, skipping those below \<open>blo\<close>
  (\<open>continue\<close>) and stopping at the first one not below \<open>bhi\<close> (\<open>break\<close>).
\<close>

fun flm_row :: "string \<Rightarrow> string \<Rightarrow> nat \<Rightarrow> nat \<Rightarrow> (nat \<Rightarrow> nat) \<times> match \<Rightarrow> nat \<Rightarrow> (nat \<Rightarrow> nat) \<times> match" where
  "flm_row a b blo bhi (j2len, best) i =
     foldl (flm_inner j2len i) (\<lambda>_. 0, best)
       (filter (\<lambda>j. blo \<le> j) (takeWhile (\<lambda>j. j < bhi) (b2j b (a ! i))))"

text \<open>The two extension loops that run when nothing is junk.\<close>

function extend_left :: "string \<Rightarrow> string \<Rightarrow> nat \<Rightarrow> nat \<Rightarrow> match \<Rightarrow> match" where
  "extend_left a b alo blo (besti, bestj, bestsize) =
     (if besti > alo \<and> bestj > blo \<and> a ! (besti - 1) = b ! (bestj - 1)
      then extend_left a b alo blo (besti - 1, bestj - 1, bestsize + 1)
      else (besti, bestj, bestsize))"
  by pat_completeness auto
termination
  by (relation "measure (\<lambda>(a, b, alo, blo, besti, bestj, bestsize). besti)") auto

function extend_right :: "string \<Rightarrow> string \<Rightarrow> nat \<Rightarrow> nat \<Rightarrow> match \<Rightarrow> match" where
  "extend_right a b ahi bhi (besti, bestj, bestsize) =
     (if besti + bestsize < ahi \<and> bestj + bestsize < bhi
         \<and> a ! (besti + bestsize) = b ! (bestj + bestsize)
      then extend_right a b ahi bhi (besti, bestj, bestsize + 1)
      else (besti, bestj, bestsize))"
  by pat_completeness auto
termination
  by (relation "measure (\<lambda>(a, b, ahi, bhi, besti, bestj, bestsize). ahi - (besti + bestsize))") auto

definition find_longest_match :: "string \<Rightarrow> string \<Rightarrow> nat \<Rightarrow> nat \<Rightarrow> nat \<Rightarrow> nat \<Rightarrow> match" where
  "find_longest_match a b alo ahi blo bhi =
     (let best = snd (foldl (flm_row a b blo bhi) (\<lambda>_. 0, (alo, blo, 0)) [alo..<ahi])
      in extend_right a b ahi bhi (extend_left a b alo blo best))"

subsection \<open>Bounds of the longest match, for the termination of the block search\<close>

lemma foldl_upt_inv:
  assumes "P alo s" and "\<And>i s. alo \<le> i \<Longrightarrow> i < ahi \<Longrightarrow> P i s \<Longrightarrow> P (Suc i) (f s i)" and "alo \<le> ahi"
  shows "P ahi (foldl f s [alo..<ahi])"
  using assms(3,2)
proof (induction ahi)
  case 0
  then show ?case using assms(1) by simp
next
  case (Suc n)
  show ?case
  proof (cases "alo = Suc n")
    case True
    then show ?thesis using assms(1) by simp
  next
    case False
    then have le: "alo \<le> n" using Suc.prems(1) by simp
    have "P n (foldl f s [alo..<n])"
      using Suc.IH [OF le] Suc.prems(2) by simp
    then show ?thesis using le Suc.prems(2) by simp
  qed
qed

definition flm_inv :: "nat \<Rightarrow> nat \<Rightarrow> (nat \<Rightarrow> nat) \<times> match \<Rightarrow> bool" where
  "flm_inv alo n s = (case s of (j2len, (bi, bj, bs)) \<Rightarrow> (\<forall>j. j2len j \<le> n - alo) \<and> alo \<le> bi \<and> bi + bs \<le> n)"

lemma flm_inner_inv:
  assumes "alo \<le> i" and "\<forall>j. j2len j \<le> i - alo" and "flm_inv alo (Suc i) s"
  shows "flm_inv alo (Suc i) (flm_inner j2len i s j)"
proof -
  obtain nj bi bj bs where s: "s = (nj, (bi, bj, bs))" by (metis prod_cases4)
  have k: "(if j = 0 then 0 else j2len (j - 1)) + 1 \<le> Suc i - alo"
    using assms(1,2) by (auto simp: Suc_diff_le)
  show ?thesis using assms(1,3) k unfolding s flm_inv_def
    by (auto simp: Let_def)
qed

lemma flm_inner_fold_inv:
  assumes "alo \<le> i" and "\<forall>j. j2len j \<le> i - alo" 
  shows "flm_inv alo (Suc i) s \<Longrightarrow> flm_inv alo (Suc i) (foldl (flm_inner j2len i) s js)"
  by (induction js arbitrary: s) (simp_all add: flm_inner_inv [OF assms])

lemma flm_row_inv:
  assumes "alo \<le> i" and "flm_inv alo i s"
  shows "flm_inv alo (Suc i) (flm_row a b blo bhi s i)"
proof -
  obtain j2len bi bj bs where s: "s = (j2len, (bi, bj, bs))" by (metis prod_cases4)
  have 1: "\<forall>j. j2len j \<le> i - alo" using assms(2) by (simp add: s flm_inv_def)
  have 2: "flm_inv alo (Suc i) (\<lambda>_. 0, (bi, bj, bs))"
    using assms(2) by (simp add: s flm_inv_def)
  show ?thesis unfolding s flm_row.simps
    by (rule flm_inner_fold_inv [OF assms(1) 1 2])
qed

declare extend_left.simps [simp del] extend_right.simps [simp del]

lemma extend_left_bounds:
  "alo \<le> bi \<Longrightarrow> bi + bs \<le> ahi \<Longrightarrow> extend_left a b alo blo (bi, bj, bs) = (i, j, k) \<Longrightarrow> alo \<le> i \<and> i + k \<le> ahi"
proof (induction a b alo blo "(bi, bj, bs)" arbitrary: bi bj bs rule: extend_left.induct)
  case (1 a b alo blo besti bestj bestsize)
  show ?case
  proof (cases "besti > alo \<and> bestj > blo \<and> a ! (besti - 1) = b ! (bestj - 1)")
    case True
    then have "extend_left a b alo blo (besti - 1, bestj - 1, bestsize + 1) = (i, j, k)"
      using "1.prems"(3) by (simp add: extend_left.simps [of a b alo blo besti])
    moreover have "alo \<le> besti - 1" "besti - 1 + (bestsize + 1) \<le> ahi"
      using True "1.prems"(1,2) by auto
    ultimately show ?thesis using "1.hyps" [OF True] by blast
  next
    case False
    then show ?thesis using "1.prems" by (auto simp: extend_left.simps [of a b alo blo besti])
  qed
qed

lemma extend_right_bounds:
  "alo \<le> bi \<Longrightarrow> bi + bs \<le> ahi \<Longrightarrow> extend_right a b ahi bhi (bi, bj, bs) = (i, j, k) \<Longrightarrow> alo \<le> i \<and> i + k \<le> ahi"
proof (induction a b ahi bhi "(bi, bj, bs)" arbitrary: bi bj bs rule: extend_right.induct)
  case (1 a b ahi bhi besti bestj bestsize)
  show ?case
  proof (cases "besti + bestsize < ahi \<and> bestj + bestsize < bhi \<and> a ! (besti + bestsize) = b ! (bestj + bestsize)")
    case True
    then have "extend_right a b ahi bhi (besti, bestj, bestsize + 1) = (i, j, k)"
      using "1.prems"(3) by (simp add: extend_right.simps [of a b ahi bhi besti])
    moreover have "besti + (bestsize + 1) \<le> ahi"
      using True by simp
    ultimately show ?thesis using "1.hyps" [OF True] "1.prems"(1) by blast
  next
    case False
    then show ?thesis using "1.prems" by (auto simp: extend_right.simps [of a b ahi bhi besti])
  qed
qed

lemma find_longest_match_bounds:
  assumes "find_longest_match a b alo ahi blo bhi = (i, j, k)" and "k \<noteq> 0"
  shows "alo \<le> i \<and> i + k \<le> ahi"
proof (cases "alo \<le> ahi")
  case True
  define s where "s = foldl (flm_row a b blo bhi) (\<lambda>_. 0, (alo, blo, 0)) [alo..<ahi]"
  have "flm_inv alo ahi s" unfolding s_def
  proof (rule foldl_upt_inv [where P = "flm_inv alo"])
    show "flm_inv alo alo (\<lambda>_. 0, (alo, blo, 0))" by (simp add: flm_inv_def)
  next
    fix i s assume "alo \<le> i" "flm_inv alo i s"
    then show "flm_inv alo (Suc i) (flm_row a b blo bhi s i)" by (rule flm_row_inv)
  next
    show "alo \<le> ahi" by (rule True)
  qed
  then obtain bi bj bs where b: "snd s = (bi, bj, bs)" "alo \<le> bi" "bi + bs \<le> ahi"
    by (cases s) (auto simp: flm_inv_def)
  obtain i' j' k' where l: "extend_left a b alo blo (bi, bj, bs) = (i', j', k')"
    by (metis prod_cases3)
  have l': "alo \<le> i' \<and> i' + k' \<le> ahi" by (rule extend_left_bounds [OF b(2,3) l])
  have "extend_right a b ahi bhi (i', j', k') = (i, j, k)"
    using assms(1) l b(1) by (simp add: find_longest_match_def s_def [symmetric])
  then show ?thesis using extend_right_bounds l' by blast
next
  case False
  then have "find_longest_match a b alo ahi blo bhi = (alo, blo, 0)"
    by (simp add: find_longest_match_def extend_left.simps [of a b alo blo alo]
        extend_right.simps [of a b ahi bhi alo])
  then show ?thesis using assms by simp
qed

text \<open>
  The \<open>while queue\<close> loop of \<open>get_matching_blocks\<close>. The queue is a stack
  (\<open>queue.pop()\<close> takes the element appended last), so its head here is the top: the
  right region is pushed after the left one and is handled first. The blocks are kept in
  the order found; the library then sorts and merges adjacent blocks, which does not change
  the sum of their sizes, the only thing \<open>ratio\<close> reads.
\<close>

function get_matching_blocks_loop :: "string \<Rightarrow> string \<Rightarrow> (nat \<times> nat \<times> nat \<times> nat) list \<Rightarrow> match list \<Rightarrow> match list" where
  "get_matching_blocks_loop a b [] matching_blocks = matching_blocks"
| "get_matching_blocks_loop a b ((alo, ahi, blo, bhi) # queue) matching_blocks =
     (case find_longest_match a b alo ahi blo bhi of (i, j, k) \<Rightarrow>
        if k \<noteq> 0
        then get_matching_blocks_loop a b
               ((if i + k < ahi \<and> j + k < bhi then [(i + k, ahi, j + k, bhi)] else [])
                @ (if alo < i \<and> blo < j then [(alo, i, blo, j)] else []) @ queue)
               (matching_blocks @ [(i, j, k)])
        else get_matching_blocks_loop a b queue matching_blocks)"
  by pat_completeness auto
termination
proof (relation "measure (\<lambda>(a, b, queue, mbs). sum_list (map (\<lambda>(alo, ahi, blo, bhi). 2 * (ahi - alo) + 1) queue))", goal_cases)
  case 1
  then show ?case by simp
next
  case (2 a b alo ahi blo bhi queue matching_blocks x1 x2 i j)
  then show ?case using find_longest_match_bounds [of a b alo ahi blo bhi x1 i j] by auto
next
  case (3 a b alo ahi blo bhi queue matching_blocks x1 x2 i j)
  then show ?case by simp
qed

text \<open>
  \<open>ratio\<close> with \<open>_calculate_ratio\<close>: \<open>2.0 * matches / length\<close>, and 1.0 when both
  are empty. The two integers are converted to \<open>float\<close>, the product and the quotient are
  rounded.
\<close>

definition ratio :: "string \<Rightarrow> string \<Rightarrow> rat" where
  "ratio a b =
     (let matches = sum_list (map (\<lambda>(i, j, k). k) (get_matching_blocks_loop a b [(0, length a, 0, length b)] []));
          len = length a + length b
      in if len \<noteq> 0 then fdiv (fmul 2 (fl (of_nat matches))) (fl (of_nat len)) else 1)"

subsection \<open>WardrobeItem, normalize, get\_text\_similarity\<close>

record WardrobeItem =
  item_id :: string
  type :: string
  color :: pystr
  pattern :: pystr
  fabric :: pystr
  description :: pystr
  brand :: pystr
  image_url :: pystr
  created_at :: "int option"

text \<open>
  \<open>not text\<close>: \<open>None\<close> and the empty string are false. The source's
  \<open>normalize\<close> is \<open>normalize_str\<close> here, HOL having a \<open>normalize\<close> of its own.
\<close>

definition falsy :: "pystr \<Rightarrow> bool" where
  "falsy text = (case text of None \<Rightarrow> True | Some t \<Rightarrow> t = [])"

definition lower :: "char \<Rightarrow> char" where
  "lower c = (let n = (of_char c :: nat) in if 65 \<le> n \<and> n \<le> 90 then char_of (n + 32) else c)"

definition kept :: "char \<Rightarrow> bool" where
  "kept c = (let n = (of_char c :: nat) in (97 \<le> n \<and> n \<le> 122) \<or> (48 \<le> n \<and> n \<le> 57))"

definition normalize_str :: "pystr \<Rightarrow> string" where
  "normalize_str text =
     (case text of None \<Rightarrow> []
      | Some t \<Rightarrow> if t = [] then [] else filter kept (map lower t))"

definition get_text_similarity :: "pystr \<Rightarrow> pystr \<Rightarrow> rat" where
  "get_text_similarity text1 text2 =
     (if falsy text1 \<or> falsy text2 then 0
      else ratio (normalize_str text1) (normalize_str text2))"

subsection \<open>get\_match\_score\<close>

type_synonym summary_item = "string \<rightharpoonup> pystr"

text \<open>\<open>d.get(key, "")\<close>.\<close>

definition get_or_empty :: "summary_item \<Rightarrow> string \<Rightarrow> pystr" where
  "get_or_empty d key = (case d key of None \<Rightarrow> Some [] | Some v \<Rightarrow> v)"

text \<open>\<open>summary_item.get("type", summary_item.get("category", ""))\<close>.\<close>

definition summary_type :: "summary_item \<Rightarrow> pystr" where
  "summary_type d = (case d ''type'' of None \<Rightarrow> get_or_empty d ''category'' | Some v \<Rightarrow> v)"

definition get_match_score :: "summary_item \<Rightarrow> WardrobeItem \<Rightarrow> rat" where
  "get_match_score summary_item wardrobe_item =
     (if normalize_str (Some (type wardrobe_item)) \<noteq> normalize_str (summary_type summary_item) then - 1
      else
        let score = 1;
            score = (if normalize_str (color wardrobe_item) = normalize_str (get_or_empty summary_item ''color'')
                     then score + 2 else score);
            score = (if normalize_str (pattern wardrobe_item) = normalize_str (get_or_empty summary_item ''pattern'')
                     then score + 4 else score);
            mat1 = normalize_str (fabric wardrobe_item);
            mat2 = normalize_str (get_or_empty summary_item ''fabric'');
            score = (if mat1 \<noteq> [] \<and> mat2 \<noteq> [] \<and> (sublist mat1 mat2 \<or> sublist mat2 mat1)
                     then score + 3 else score);
            desc_similarity = get_text_similarity (description wardrobe_item)
                                (get_or_empty summary_item ''description'')
        in fadd score (fmul desc_similarity (3 / 2)))"

subsection \<open>find\_best\_match\<close>

text \<open>
  Lines 94 to 107: the score of a candidate, lowered by twice its description similarity
  with every item already matched in this outfit that is more than 0.7 similar. The
  penalty loop runs only when the matching set is not empty and the score is positive.
\<close>

definition penalty_step :: "WardrobeItem \<Rightarrow> rat \<Rightarrow> WardrobeItem \<Rightarrow> rat" where
  "penalty_step item score matched_item =
     (let desc_similarity = get_text_similarity (description item) (description matched_item)
      in if desc_similarity > fl (7 / 10) then fsub score (fmul desc_similarity 2) else score)"

definition adjusted_score :: "summary_item \<Rightarrow> WardrobeItem \<Rightarrow> WardrobeItem list \<Rightarrow> rat" where
  "adjusted_score suggested_item item matching_set_items =
     (let score = get_match_score suggested_item item
      in if matching_set_items \<noteq> [] \<and> score > 0
         then foldl (penalty_step item) score matching_set_items
         else score)"

text \<open>
  The loop over the wardrobe, with the state \<open>(best_item, highest_score)\<close>.
  \<open>suggested_item["type"]\<close> is read inside the loop, for every item that is not used:
  it raises \<open>KeyError\<close> when the key is absent.
\<close>

fun find_best_match_loop ::
  "summary_item \<Rightarrow> WardrobeItem list \<Rightarrow> string set \<Rightarrow> WardrobeItem list
     \<Rightarrow> WardrobeItem option \<times> rat \<Rightarrow> py_error + (WardrobeItem option \<times> rat)" where
  "find_best_match_loop suggested_item [] used_items matching_set_items acc = Inr acc"
| "find_best_match_loop suggested_item (item # rest) used_items matching_set_items (best_item, highest_score) =
     (if item_id item \<notin> used_items then
        (case suggested_item ''type'' of
           None \<Rightarrow> Inl KeyError
         | Some suggested_type \<Rightarrow>
             if normalize_str (Some (type item)) = normalize_str suggested_type then
               (let score = adjusted_score suggested_item item matching_set_items
                in if score > highest_score
                   then find_best_match_loop suggested_item rest used_items matching_set_items (Some item, score)
                   else find_best_match_loop suggested_item rest used_items matching_set_items (best_item, highest_score))
             else find_best_match_loop suggested_item rest used_items matching_set_items (best_item, highest_score))
      else find_best_match_loop suggested_item rest used_items matching_set_items (best_item, highest_score))"

definition find_best_match ::
  "summary_item \<Rightarrow> WardrobeItem list \<Rightarrow> string set \<Rightarrow> WardrobeItem list
     \<Rightarrow> py_error + (WardrobeItem option \<times> rat)" where
  "find_best_match suggested_item wardrobe_items used_items matching_set_items =
     find_best_match_loop suggested_item wardrobe_items used_items matching_set_items (None, - 1)"

subsection \<open>match\_outfit\_with\_wardrobe\<close>

text \<open>
  The input dictionaries: a key that may be absent is an optional field. The dictionaries
  appended to \<open>matched_items\<close> are records; \<open>color\<close> and \<open>fabric\<close> are keys of the
  matched entry only, so they are optional in the record.
\<close>

record CandidateOutfit =
  outfit_name :: "string option"
  clothing_items :: "summary_item list option"

record OutfitSuggestion =
  outfit_recommendations :: "CandidateOutfit list option"

record Suggestion =
  s_type :: pystr
  s_description :: pystr
  s_color :: pystr
  s_fabric :: pystr
  s_pattern :: pystr

record MatchResult =
  mr_item_id :: "string option"
  mr_description :: pystr
  mr_type :: pystr
  mr_color :: "pystr option"
  mr_fabric :: "pystr option"
  mr_score :: rat
  mr_suggestion :: Suggestion

definition suggestion_of :: "summary_item \<Rightarrow> Suggestion" where
  "suggestion_of item =
     \<lparr> s_type = get_or_empty item ''type'',
       s_description = get_or_empty item ''description'',
       s_color = get_or_empty item ''color'',
       s_fabric = get_or_empty item ''fabric'',
       s_pattern = get_or_empty item ''pattern'' \<rparr>"

definition matched_entry :: "WardrobeItem \<Rightarrow> rat \<Rightarrow> summary_item \<Rightarrow> MatchResult" where
  "matched_entry best_match score item =
     \<lparr> mr_item_id = Some (item_id best_match),
       mr_description = description best_match,
       mr_type = Some (type best_match),
       mr_color = Some (color best_match),
       mr_fabric = Some (fabric best_match),
       mr_score = score,
       mr_suggestion = suggestion_of item \<rparr>"

definition no_match_entry :: "summary_item \<Rightarrow> MatchResult" where
  "no_match_entry item =
     \<lparr> mr_item_id = None,
       mr_description = Some ''No match found'',
       mr_type = get_or_empty item ''type'',
       mr_color = None,
       mr_fabric = None,
       mr_score = - 1,
       mr_suggestion = suggestion_of item \<rparr>"

text \<open>
  The loop over \<open>clothing_items\<close> of one outfit. Its state is
  \<open>(matched_items, matched_items_objects, total_score, used_items)\<close>; only the matched
  branch changes \<open>total_score\<close>.
\<close>

type_synonym outfit_state = "MatchResult list \<times> WardrobeItem list \<times> rat \<times> string set"

fun match_items :: "summary_item list \<Rightarrow> WardrobeItem list \<Rightarrow> outfit_state \<Rightarrow> py_error + outfit_state" where
  "match_items [] wardrobe st = Inr st"
| "match_items (item # rest) wardrobe (matched_items, matched_items_objects, total_score, used_items) =
     (case find_best_match item wardrobe used_items matched_items_objects of
        Inl e \<Rightarrow> Inl e
      | Inr (None, score) \<Rightarrow>
          match_items rest wardrobe
            (matched_items @ [no_match_entry item], matched_items_objects, total_score, used_items)
      | Inr (Some best_match, score) \<Rightarrow>
          match_items rest wardrobe
            (matched_items @ [matched_entry best_match score item],
             matched_items_objects @ [best_match],
             fadd total_score score,
             insert (item_id best_match) used_items))"

text \<open>
  What is appended to \<open>outfit_matches\<close> for one outfit, and what the matcher returns:
  the list \<open>outfit_matches\<close>, or a dictionary with the single key \<open>"error"\<close>.
\<close>

record OutfitMatchResult =
  result_outfit_name :: string
  total_score :: rat
  matched_items :: "MatchResult list"

datatype match_output = ErrorDict string | OutfitMatches "OutfitMatchResult list"

text \<open>
  The loop over \<open>outfit_recommendations\<close>. \<open>used_items\<close> is created once, before this
  loop ("Track used items across all outfits"), and is passed on from one outfit to the
  next; \<open>matched_items\<close>, \<open>matched_items_objects\<close> and \<open>total_score\<close> start afresh
  for every outfit.
\<close>

fun match_outfits ::
  "CandidateOutfit list \<Rightarrow> WardrobeItem list \<Rightarrow> OutfitMatchResult list \<times> string set
     \<Rightarrow> py_error + match_output" where
  "match_outfits [] wardrobe (outfit_matches, used_items) = Inr (OutfitMatches outfit_matches)"
| "match_outfits (outfit # rest) wardrobe (outfit_matches, used_items) =
     (case clothing_items outfit of
        None \<Rightarrow> Inr (ErrorDict ''No clothing items in outfit suggestion'')
      | Some items \<Rightarrow>
          (case outfit_name outfit of
             None \<Rightarrow> Inl KeyError
           | Some name \<Rightarrow>
               (case match_items items wardrobe ([], [], 0, used_items) of
                  Inl e \<Rightarrow> Inl e
                | Inr (matched, objects, score_sum, used_items') \<Rightarrow>
                    match_outfits rest wardrobe
                      (outfit_matches @
                         [\<lparr> result_outfit_name = name, total_score = score_sum, matched_items = matched \<rparr>],
                       used_items'))))"

definition match_outfit_with_wardrobe :: "OutfitSuggestion \<Rightarrow> WardrobeItem list \<Rightarrow> py_error + match_output" where
  "match_outfit_with_wardrobe outfit_suggestion wardrobe =
     (case outfit_recommendations outfit_suggestion of
        None \<Rightarrow> Inr (ErrorDict ''Invalid outfit suggestion format'')
      | Some outfits \<Rightarrow> match_outfits outfits wardrobe ([], {}))"

subsection \<open>generate\_outfit\_recommendation, from step 3\<close>

text \<open>
  Steps 1 and 2 of \<open>generate_outfit_recommendation\<close> call the search and the language
  model and yield \<open>outfit_suggestion\<close>, a non-empty dictionary; the model starts there.
  \<open>max(outfit_matches, key = ...)\<close> raises \<open>ValueError\<close> on an empty list, and
  returns the first element whose key is strictly greater than all before it and not
  smaller than any after it. When the matcher has returned its error dictionary,
  \<open>max\<close> iterates over its single key, the string \<open>"error"\<close>, and the key function
  indexes that string with \<open>"total_score"\<close>: \<open>TypeError\<close>.
\<close>

record Recommendation =
  user_id :: string
  occasion :: string
  outfit :: "WardrobeItem list"

fun max_total_score :: "OutfitMatchResult \<Rightarrow> OutfitMatchResult list \<Rightarrow> OutfitMatchResult" where
  "max_total_score best [] = best"
| "max_total_score best (x # xs) =
     (if total_score x > total_score best then max_total_score x xs else max_total_score best xs)"

definition generate_outfit_recommendation ::
  "string \<Rightarrow> string \<Rightarrow> OutfitSuggestion \<Rightarrow> WardrobeItem list \<Rightarrow> py_error + Recommendation" where
  "generate_outfit_recommendation uid occ outfit_suggestion wardrobe_items =
     (case match_outfit_with_wardrobe outfit_suggestion wardrobe_items of
        Inl e \<Rightarrow> Inl e
      | Inr (ErrorDict msg) \<Rightarrow> Inl TypeError
      | Inr (OutfitMatches []) \<Rightarrow> Inl ValueError
      | Inr (OutfitMatches (m # ms)) \<Rightarrow>
          (let highest_score_outfit = max_total_score m ms;
               best_item_ids = map mr_item_id (matched_items highest_score_outfit);
               best_items = filter (\<lambda>item. Some (item_id item) \<in> set best_item_ids) wardrobe_items
           in Inr \<lparr> user_id = uid, occasion = occ, outfit = best_items \<rparr>))"

section \<open>Vocabulary of the properties\<close>

text \<open>
  \<open>WardrobeItem(item_id = ..., type = ..., ...)\<close> with the remaining fields at their
  default \<open>None\<close>.
\<close>

definition mk_wardrobe_item :: "string \<Rightarrow> string \<Rightarrow> pystr \<Rightarrow> pystr \<Rightarrow> pystr \<Rightarrow> pystr \<Rightarrow> WardrobeItem" where
  "mk_wardrobe_item i t c p f d =
     \<lparr> item_id = i, type = t, color = c, pattern = p, fabric = f, description = d,
       brand = None, image_url = None, created_at = None \<rparr>"

text \<open>The unused wardrobe items of the slot's type, in wardrobe order.\<close>

definition candidates :: "string option \<Rightarrow> WardrobeItem list \<Rightarrow> string set \<Rightarrow> WardrobeItem list" where
  "candidates suggested_type wardrobe_items used_items =
     filter (\<lambda>item. item_id item \<notin> used_items
                      \<and> normalize_str (Some (type item)) = normalize_str suggested_type) wardrobe_items"

text \<open>
  The item ids assigned by the entries of one outfit, the scores of its matched entries and
  their sum, and the ids assigned by a whole list of outfit results. A sum is the one the
  source computes: it starts from 0 and adds the scores in slot order, each addition
  rounded.
\<close>

primrec assigned_ids :: "MatchResult list \<Rightarrow> string list" where
  "assigned_ids [] = []"
| "assigned_ids (m # ms) = (case mr_item_id m of None \<Rightarrow> assigned_ids ms | Some i \<Rightarrow> i # assigned_ids ms)"

definition matched_scores :: "MatchResult list \<Rightarrow> rat list" where
  "matched_scores ms = map mr_score (filter (\<lambda>m. mr_item_id m \<noteq> None) ms)"

definition matched_total :: "MatchResult list \<Rightarrow> rat" where
  "matched_total ms = foldl fadd 0 (matched_scores ms)"

definition all_assigned_ids :: "OutfitMatchResult list \<Rightarrow> string list" where
  "all_assigned_ids rs = concat (map (\<lambda>r. assigned_ids (matched_items r)) rs)"

text \<open>
  Reading a returned value: the list of outfit results (empty for anything else), and the
  item ids it assigns, outfit by outfit and slot by slot.
\<close>

definition outfit_results :: "py_error + match_output \<Rightarrow> OutfitMatchResult list" where
  "outfit_results out = (case out of Inr (OutfitMatches rs) \<Rightarrow> rs | _ \<Rightarrow> [])"

definition assignment :: "py_error + match_output \<Rightarrow> string option list list" where
  "assignment out = map (\<lambda>r. map mr_item_id (matched_items r)) (outfit_results out)"

text \<open>
  The total score in the words of the specification: the sum of all slot scores, the -1 of
  every unmatched slot included.
\<close>

definition spec_total_score :: "OutfitMatchResult \<Rightarrow> rat" where
  "spec_total_score r = foldl fadd 0 (map mr_score (matched_items r))"

text \<open>The slots of a candidate outfit; none when \<open>clothing_items\<close> is absent.\<close>

definition slots :: "CandidateOutfit \<Rightarrow> summary_item list" where
  "slots c = (case clothing_items c of None \<Rightarrow> [] | Some items \<Rightarrow> items)"

subsection \<open>Concrete wardrobes and suggestions\<close>

definition white_top :: WardrobeItem where
  "white_top = mk_wardrobe_item ''A'' ''top'' (Some ''white'') (Some ''solid'') None None"

definition white_top_slot :: summary_item where
  "white_top_slot = [''type'' \<mapsto> Some ''top'', ''color'' \<mapsto> Some ''white'', ''pattern'' \<mapsto> Some ''solid'']"

definition two_tops :: OutfitSuggestion where
  "two_tops = \<lparr> outfit_recommendations =
      Some [\<lparr> outfit_name = Some ''casual'', clothing_items = Some [white_top_slot, white_top_slot] \<rparr>] \<rparr>"

definition two_tops_result :: OutfitMatchResult where
  "two_tops_result =
     \<lparr> result_outfit_name = ''casual'', total_score = 7,
       matched_items = [matched_entry white_top 7 white_top_slot, no_match_entry white_top_slot] \<rparr>"

definition blue_jeans :: WardrobeItem where
  "blue_jeans = mk_wardrobe_item ''B'' ''bottom'' (Some ''blue'') (Some ''solid'') (Some ''denim'') (Some ''blue jeans'')"

definition blue_top_slot :: summary_item where
  "blue_top_slot = [''type'' \<mapsto> Some ''top'', ''color'' \<mapsto> Some ''blue'', ''pattern'' \<mapsto> Some ''solid'',
                    ''fabric'' \<mapsto> Some ''denim'', ''description'' \<mapsto> Some ''blue jeans'']"

definition plain_top :: WardrobeItem where
  "plain_top = mk_wardrobe_item ''A'' ''top'' None None None None"

definition plain_top_slot :: summary_item where
  "plain_top_slot = [''type'' \<mapsto> Some ''top'']"

definition same_top_twice :: OutfitSuggestion where
  "same_top_twice = \<lparr> outfit_recommendations =
      Some [\<lparr> outfit_name = Some ''casual'', clothing_items = Some [white_top_slot] \<rparr>,
            \<lparr> outfit_name = Some ''formal'', clothing_items = Some [white_top_slot] \<rparr>] \<rparr>"

definition same_top_twice_results :: "OutfitMatchResult list" where
  "same_top_twice_results =
     [\<lparr> result_outfit_name = ''casual'', total_score = 7,
        matched_items = [matched_entry white_top 7 white_top_slot] \<rparr>,
      \<lparr> result_outfit_name = ''formal'', total_score = 0,
        matched_items = [no_match_entry white_top_slot] \<rparr>]"

definition white_shirt :: WardrobeItem where
  "white_shirt = mk_wardrobe_item ''S'' ''top'' (Some ''white'') None None None"

definition two_tops_results_two :: OutfitMatchResult where
  "two_tops_results_two =
     \<lparr> result_outfit_name = ''casual'', total_score = 10,
       matched_items = [matched_entry white_top 7 white_top_slot, matched_entry white_shirt 3 white_top_slot] \<rparr>"

definition category_slot :: summary_item where
  "category_slot = [''category'' \<mapsto> Some ''top'']"

definition category_only :: OutfitSuggestion where
  "category_only = \<lparr> outfit_recommendations =
      Some [\<lparr> outfit_name = Some ''casual'', clothing_items = Some [category_slot] \<rparr>] \<rparr>"

definition dashes_top :: WardrobeItem where
  "dashes_top = mk_wardrobe_item ''D'' ''top'' None None None (Some ''!!!'')"

definition dashes_slot :: summary_item where
  "dashes_slot = [''type'' \<mapsto> Some ''top'', ''description'' \<mapsto> Some ''???'']"

definition striped_slot :: summary_item where
  "striped_slot = [''type'' \<mapsto> Some ''top'', ''color'' \<mapsto> Some ''green'', ''pattern'' \<mapsto> Some ''striped'']"

definition red_shirt :: WardrobeItem where
  "red_shirt = mk_wardrobe_item ''A'' ''top'' (Some ''red'') None None (Some ''white shirt'')"

definition blue_shirt :: WardrobeItem where
  "blue_shirt = mk_wardrobe_item ''B'' ''top'' (Some ''blue'') None None (Some ''white shirt'')"

definition threshold_slot :: summary_item where
  "threshold_slot = [''type'' \<mapsto> Some ''top'', ''color'' \<mapsto> Some ''green'', ''pattern'' \<mapsto> Some ''striped'',
                     ''description'' \<mapsto> Some ''abcdefgwxyz'']"

definition item_p :: WardrobeItem where
  "item_p = mk_wardrobe_item ''P'' ''top'' (Some ''red'') None None (Some ''abcde'')"

definition item_q :: WardrobeItem where
  "item_q = mk_wardrobe_item ''Q'' ''top'' (Some ''red'') None None (Some ''abcdefxyz'')"

definition item_x :: WardrobeItem where
  "item_x = mk_wardrobe_item ''X'' ''top'' (Some ''red'') None None (Some ''abcdefg'')"

definition two_striped :: OutfitSuggestion where
  "two_striped = \<lparr> outfit_recommendations =
      Some [\<lparr> outfit_name = Some ''casual'', clothing_items = Some [striped_slot, striped_slot] \<rparr>] \<rparr>"

definition no_key :: OutfitSuggestion where
  "no_key = \<lparr> outfit_recommendations = None \<rparr>"

definition casual_outfit :: CandidateOutfit where
  "casual_outfit = \<lparr> outfit_name = Some ''casual'', clothing_items = Some [white_top_slot] \<rparr>"

definition bare_outfit :: CandidateOutfit where
  "bare_outfit = \<lparr> outfit_name = Some ''formal'', clothing_items = None \<rparr>"

definition missing_items :: OutfitSuggestion where
  "missing_items = \<lparr> outfit_recommendations = Some [casual_outfit, bare_outfit] \<rparr>"

definition no_outfits :: OutfitSuggestion where
  "no_outfits = \<lparr> outfit_recommendations = Some [] \<rparr>"

definition two_tops_outfit :: CandidateOutfit where
  "two_tops_outfit = \<lparr> outfit_name = Some ''casual'', clothing_items = Some [white_top_slot, white_top_slot] \<rparr>"

definition empty_outfit :: CandidateOutfit where
  "empty_outfit = \<lparr> outfit_name = Some ''casual'', clothing_items = Some [] \<rparr>"

definition one_empty_outfit :: OutfitSuggestion where
  "one_empty_outfit = \<lparr> outfit_recommendations = Some [empty_outfit] \<rparr>"

section \<open>Lemmas on the loops\<close>

text \<open>
  The scores without a description, 1 plus any of the bonuses 2, 4 and 3, and the same
  scores with the full description bonus 1.5 are binary64 values.
\<close>

lemma fl_scores:
  "fl 0 = 0" "fl (3 / 2) = 3 / 2"
  "fl 1 = 1" "fl 3 = 3" "fl 4 = 4" "fl 5 = 5" "fl 6 = 6" "fl 7 = 7" "fl 8 = 8" "fl 10 = 10"
  "fl (5 / 2) = 5 / 2" "fl (9 / 2) = 9 / 2" "fl (11 / 2) = 11 / 2" "fl (13 / 2) = 13 / 2"
  "fl (15 / 2) = 15 / 2" "fl (17 / 2) = 17 / 2" "fl (19 / 2) = 19 / 2" "fl (23 / 2) = 23 / 2"
  by code_simp+

lemma ratio_empty: "ratio [] [] = 1"
  by (simp add: ratio_def)

lemma find_best_match_loop_typed:
  assumes "s ''type'' = Some ty"
  shows "\<exists>b' h'. find_best_match_loop s w used ms (b, h) = Inr (b', h')
           \<and> h \<le> h'
           \<and> ((b' = b \<and> h' = h)
               \<or> (\<exists>it. b' = Some it \<and> it \<in> set (candidates ty w used)
                        \<and> h' = adjusted_score s it ms \<and> h < h'))
           \<and> (\<forall>c \<in> set (candidates ty w used). adjusted_score s c ms \<le> h')"
proof (induction w arbitrary: b h)
  case Nil
  then show ?case by (simp add: candidates_def)
next
  case (Cons item rest)
  show ?case
  proof (cases "item_id item \<notin> used \<and> normalize_str (Some (type item)) = normalize_str ty")
    case False
    then have step: "find_best_match_loop s (item # rest) used ms (b, h) = find_best_match_loop s rest used ms (b, h)"
      using assms by auto
    have cs: "candidates ty (item # rest) used = candidates ty rest used"
      using False by (auto simp: candidates_def)
    show ?thesis unfolding step cs by (rule Cons.IH)
  next
    case True
    then have cs: "candidates ty (item # rest) used = item # candidates ty rest used"
      by (simp add: candidates_def)
    show ?thesis
    proof (cases "adjusted_score s item ms > h")
      case gt: True
      then have step: "find_best_match_loop s (item # rest) used ms (b, h)
                       = find_best_match_loop s rest used ms (Some item, adjusted_score s item ms)"
        using assms True by (simp add: Let_def)
      from Cons.IH [of "Some item" "adjusted_score s item ms"]
      obtain b' h' where r: "find_best_match_loop s rest used ms (Some item, adjusted_score s item ms) = Inr (b', h')"
        "adjusted_score s item ms \<le> h'"
        "(b' = Some item \<and> h' = adjusted_score s item ms)
               \<or> (\<exists>it. b' = Some it \<and> it \<in> set (candidates ty rest used)
                        \<and> h' = adjusted_score s it ms \<and> adjusted_score s item ms < h')"
        "\<forall>c \<in> set (candidates ty rest used). adjusted_score s c ms \<le> h'"
        by blast
      show ?thesis unfolding step cs using r gt by auto
    next
      case le: False
      then have step: "find_best_match_loop s (item # rest) used ms (b, h)
                       = find_best_match_loop s rest used ms (b, h)"
        using assms True by (simp add: Let_def)
      from Cons.IH [of b h]
      obtain b' h' where r: "find_best_match_loop s rest used ms (b, h) = Inr (b', h')"
        "h \<le> h'"
        "(b' = b \<and> h' = h)
               \<or> (\<exists>it. b' = Some it \<and> it \<in> set (candidates ty rest used)
                        \<and> h' = adjusted_score s it ms \<and> h < h')"
        "\<forall>c \<in> set (candidates ty rest used). adjusted_score s c ms \<le> h'"
        by blast
      show ?thesis unfolding step cs using r le by auto
    qed
  qed
qed

lemma find_best_match_loop_untyped:
  assumes "s ''type'' = None"
  shows "find_best_match_loop s w used ms acc
           = (if \<exists>item \<in> set w. item_id item \<notin> used then Inl KeyError else Inr acc)"
proof (induction w)
  case Nil
  then show ?case by simp
next
  case (Cons item rest)
  obtain b h where acc: "acc = (b, h)" by (cases acc)
  show ?case using Cons assms unfolding acc by simp
qed

lemma find_best_match_loop_Some:
  "find_best_match_loop s w used ms (None, h) = Inr (Some it, sc) \<Longrightarrow> it \<in> set w \<and> item_id it \<notin> used"
proof (cases "s ''type''")
  case None
  assume "find_best_match_loop s w used ms (None, h) = Inr (Some it, sc)"
  then show ?thesis using None find_best_match_loop_untyped [of s w used ms "(None, h)"]
    by (simp split: if_splits)
next
  case (Some ty)
  assume a: "find_best_match_loop s w used ms (None, h) = Inr (Some it, sc)"
  from find_best_match_loop_typed [of s ty w used ms None h] Some a
  have "it \<in> set (candidates ty w used)" by auto
  then show ?thesis by (simp add: candidates_def)
qed

lemma assigned_ids_append: "assigned_ids (xs @ ys) = assigned_ids xs @ assigned_ids ys"
  by (induction xs) (auto split: option.splits)

lemma mr_item_id_no_match: "mr_item_id (no_match_entry item) = None"
  by (simp add: no_match_entry_def)

lemma mr_item_id_matched: "mr_item_id (matched_entry bm sc item) = Some (item_id bm)"
  by (simp add: matched_entry_def)

lemma matched_scores_no_match: "matched_scores (no_match_entry item # ms) = matched_scores ms"
  by (simp add: matched_scores_def no_match_entry_def)

lemma matched_scores_matched: "matched_scores (matched_entry bm sc item # ms) = sc # matched_scores ms"
  by (simp add: matched_scores_def matched_entry_def)

lemma find_best_match_Some:
  "find_best_match s w used ms = Inr (Some it, sc) \<Longrightarrow> it \<in> set w \<and> item_id it \<notin> used"
  unfolding find_best_match_def by (rule find_best_match_loop_Some)

lemma match_items_result:
  "match_items items w (mi, objs, tot, used) = Inr (mi', objs', tot', used') \<Longrightarrow>
     \<exists>new. mi' = mi @ new \<and> length new = length items
         \<and> distinct (assigned_ids new) \<and> set (assigned_ids new) \<inter> used = {}
         \<and> used' = used \<union> set (assigned_ids new)
         \<and> tot' = foldl fadd tot (matched_scores new)"
proof (induction items arbitrary: mi objs tot used)
  case Nil
  then show ?case by (simp add: matched_scores_def)
next
  case (Cons item rest)
  show ?case
  proof (cases "find_best_match item w used objs")
    case (Inl e)
    then show ?thesis using Cons.prems by simp
  next
    case (Inr p)
    obtain best sc where p: "p = (best, sc)" by (cases p)
    show ?thesis
    proof (cases best)
      case None
      then have "match_items rest w (mi @ [no_match_entry item], objs, tot, used) = Inr (mi', objs', tot', used')"
        using Cons.prems Inr p by simp
      from Cons.IH [OF this] obtain new where n: "mi' = (mi @ [no_match_entry item]) @ new"
        "length new = length rest" "distinct (assigned_ids new)" "set (assigned_ids new) \<inter> used = {}"
        "used' = used \<union> set (assigned_ids new)" "tot' = foldl fadd tot (matched_scores new)"
        by blast
      show ?thesis
        by (rule exI [of _ "no_match_entry item # new"])
           (simp add: n mr_item_id_no_match matched_scores_no_match)
    next
      case (Some bm)
      then have fb: "find_best_match item w used objs = Inr (Some bm, sc)" using Inr p by simp
      then have fresh: "item_id bm \<notin> used" using find_best_match_Some by blast
      have "match_items rest w (mi @ [matched_entry bm sc item], objs @ [bm], fadd tot sc, insert (item_id bm) used)
              = Inr (mi', objs', tot', used')"
        using Cons.prems fb by simp
      from Cons.IH [OF this] obtain new where n: "mi' = (mi @ [matched_entry bm sc item]) @ new"
        "length new = length rest" "distinct (assigned_ids new)"
        "set (assigned_ids new) \<inter> insert (item_id bm) used = {}"
        "used' = insert (item_id bm) used \<union> set (assigned_ids new)"
        "tot' = foldl fadd (fadd tot sc) (matched_scores new)"
        by blast
      show ?thesis
        by (rule exI [of _ "matched_entry bm sc item # new"])
           (use n fresh in \<open>auto simp: mr_item_id_matched matched_scores_matched\<close>)
    qed
  qed
qed

lemma match_outfits_result:
  "match_outfits os w (om, used) = Inr (OutfitMatches rs) \<Longrightarrow>
     \<exists>new. rs = om @ new \<and> length new = length os
         \<and> (\<forall>r \<in> set new. distinct (assigned_ids (matched_items r))
                          \<and> total_score r = matched_total (matched_items r))
         \<and> distinct (all_assigned_ids new) \<and> set (all_assigned_ids new) \<inter> used = {}"
proof (induction os arbitrary: om used)
  case Nil
  then show ?case by (simp add: all_assigned_ids_def)
next
  case (Cons c rest)
  from Cons.prems obtain items where items: "clothing_items c = Some items"
    by (cases "clothing_items c") auto
  from Cons.prems items obtain name where name: "outfit_name c = Some name"
    by (cases "outfit_name c") auto
  from Cons.prems items name obtain mi objs tot used' where
    mi: "match_items items w ([], [], 0, used) = Inr (mi, objs, tot, used')"
    by (cases "match_items items w ([], [], 0, used)") auto
  define r where "r = \<lparr> result_outfit_name = name, total_score = tot, matched_items = mi \<rparr>"
  have rec: "match_outfits rest w (om @ [r], used') = Inr (OutfitMatches rs)"
    using Cons.prems items name mi by (simp add: r_def)
  from match_items_result [OF mi] have r:
    "distinct (assigned_ids mi)" "set (assigned_ids mi) \<inter> used = {}"
    "used' = used \<union> set (assigned_ids mi)" "tot = matched_total mi"
    by (auto simp: matched_total_def)
  from Cons.IH [OF rec] obtain new where n: "rs = (om @ [r]) @ new" "length new = length rest"
    "\<forall>r \<in> set new. distinct (assigned_ids (matched_items r)) \<and> total_score r = matched_total (matched_items r)"
    "distinct (all_assigned_ids new)" "set (all_assigned_ids new) \<inter> used' = {}"
    by blast
  have mr: "matched_items r = mi" "total_score r = tot" by (simp_all add: r_def)
  show ?case
  proof (rule exI [of _ "r # new"], intro conjI)
    show "rs = om @ r # new" using n(1) by simp
    show "length (r # new) = length (c # rest)" using n(2) by simp
    show "\<forall>r\<in>set (r # new). distinct (assigned_ids (matched_items r)) \<and> total_score r = matched_total (matched_items r)"
      using n(3) r(1,4) mr by simp
    show "distinct (all_assigned_ids (r # new))"
      using n(4,5) r(1,3) mr by (auto simp: all_assigned_ids_def)
    show "set (all_assigned_ids (r # new)) \<inter> used = {}"
      using n(5) r(2,3) mr by (auto simp: all_assigned_ids_def)
  qed
qed

lemma two_tops_run:
  "match_outfit_with_wardrobe two_tops [white_top] = Inr (OutfitMatches [two_tops_result])"
  by code_simp

lemma same_top_twice_run:
  "match_outfit_with_wardrobe same_top_twice [white_top] = Inr (OutfitMatches same_top_twice_results)"
  by code_simp

lemma two_tops_two_run:
  "match_outfit_with_wardrobe two_tops [white_top, white_shirt] = Inr (OutfitMatches [two_tops_results_two])"
  by code_simp

lemma match_outfits_Cons_None:
  "clothing_items c = None \<Longrightarrow>
     match_outfits (c # rest) w st = Inr (ErrorDict ''No clothing items in outfit suggestion'')"
  by (cases st) simp

text \<open>One outfit, as a step on the state of the outer loop.\<close>

lemma match_outfits_Cons_Some:
  assumes "clothing_items c = Some items"
  shows "(\<exists>e. \<forall>rest. match_outfits (c # rest) w st = Inl e)
         \<or> (\<exists>st'. \<forall>rest. match_outfits (c # rest) w st = match_outfits rest w st')"
proof -
  obtain om used where st: "st = (om, used)" by (cases st)
  show ?thesis
  proof (cases "outfit_name c")
    case None
    then show ?thesis using assms st by auto
  next
    case (Some name)
    show ?thesis
    proof (cases "match_items items w ([], [], 0, used)")
      case (Inl e)
      then show ?thesis using assms st Some by auto
    next
      case (Inr p)
      obtain mi objs tot used' where p: "p = (mi, objs, tot, used')" by (cases p) auto
      show ?thesis using assms st Some Inr p by auto
    qed
  qed
qed

lemma match_outfits_Nil: "match_outfits [] w st = Inr (OutfitMatches (fst st))"
  by (cases st) simp

lemma match_outfits_error_dict:
  "(\<exists>msg. match_outfits os w st = Inr (ErrorDict msg)) \<longleftrightarrow>
     (\<exists>pre c post. os = pre @ c # post \<and> clothing_items c = None
         \<and> (\<forall>p \<in> set pre. clothing_items p \<noteq> None)
         \<and> (\<forall>e. match_outfits pre w st \<noteq> Inl e))"
proof (induction os arbitrary: st)
  case Nil
  then show ?case by (simp add: match_outfits_Nil)
next
  case (Cons x xs)
  show ?case
  proof (cases "clothing_items x")
    case None
    have "x # xs = [] @ x # xs \<and> clothing_items x = None \<and> (\<forall>p \<in> set []. clothing_items p \<noteq> None)
            \<and> (\<forall>e. match_outfits [] w st \<noteq> Inl e)"
      using None by (simp add: match_outfits_Nil)
    then have "\<exists>pre c post. x # xs = pre @ c # post \<and> clothing_items c = None
         \<and> (\<forall>p \<in> set pre. clothing_items p \<noteq> None) \<and> (\<forall>e. match_outfits pre w st \<noteq> Inl e)"
      by blast
    then show ?thesis using match_outfits_Cons_None [OF None] by simp
  next
    case (Some items)
    have dec: "(\<exists>pre c post. x # xs = pre @ c # post \<and> clothing_items c = None
                  \<and> (\<forall>p \<in> set pre. clothing_items p \<noteq> None) \<and> (\<forall>e. match_outfits pre w st \<noteq> Inl e))
               \<longleftrightarrow> (\<exists>pre c post. xs = pre @ c # post \<and> clothing_items c = None
                  \<and> (\<forall>p \<in> set pre. clothing_items p \<noteq> None) \<and> (\<forall>e. match_outfits (x # pre) w st \<noteq> Inl e))"
      (is "?L \<longleftrightarrow> ?R")
    proof
      assume ?L
      then obtain pre c post where d: "x # xs = pre @ c # post" "clothing_items c = None"
        "\<forall>p \<in> set pre. clothing_items p \<noteq> None" "\<forall>e. match_outfits pre w st \<noteq> Inl e"
        by blast
      have "pre \<noteq> []" using d(1,2) Some by auto
      then obtain pre' where pre: "pre = x # pre'" using d(1) by (cases pre) auto
      then have "xs = pre' @ c # post" using d(1) by simp
      then show ?R using d pre by auto
    next
      assume ?R
      then obtain pre c post where d: "xs = pre @ c # post" "clothing_items c = None"
        "\<forall>p \<in> set pre. clothing_items p \<noteq> None" "\<forall>e. match_outfits (x # pre) w st \<noteq> Inl e"
        by blast
      have "x # xs = (x # pre) @ c # post \<and> clothing_items c = None
           \<and> (\<forall>p \<in> set (x # pre). clothing_items p \<noteq> None) \<and> (\<forall>e. match_outfits (x # pre) w st \<noteq> Inl e)"
        using d Some by simp
      then show ?L by blast
    qed
    from match_outfits_Cons_Some [OF Some, of w st] show ?thesis
    proof
      assume "\<exists>e. \<forall>rest. match_outfits (x # rest) w st = Inl e"
      then obtain e where e: "\<And>rest. match_outfits (x # rest) w st = Inl e" by blast
      then show ?thesis unfolding dec by simp
    next
      assume "\<exists>st'. \<forall>rest. match_outfits (x # rest) w st = match_outfits rest w st'"
      then obtain st' where s: "\<And>rest. match_outfits (x # rest) w st = match_outfits rest w st'" by blast
      show ?thesis unfolding dec s by (rule Cons.IH)
    qed
  qed
qed

lemma find_best_match_empty: "find_best_match s [] used ms = Inr (None, - 1)"
  by (simp add: find_best_match_def)

lemma find_best_match_typed_ok:
  "s ''type'' \<noteq> None \<Longrightarrow> \<exists>p. find_best_match s w used ms = Inr p"
  using find_best_match_loop_typed [of s _ w used ms None "- 1"]
  by (auto simp: find_best_match_def)

lemma match_items_ok:
  "w = [] \<or> (\<forall>it \<in> set items. it ''type'' \<noteq> None) \<Longrightarrow> \<exists>st'. match_items items w st = Inr st'"
proof (induction items arbitrary: st)
  case Nil
  then show ?case by (simp del: split_paired_Ex)
next
  case (Cons item rest)
  obtain mi objs tot used where st: "st = (mi, objs, tot, used)" by (metis prod_cases4)
  have "\<exists>p. find_best_match item w used objs = Inr p"
    using Cons.prems find_best_match_empty find_best_match_typed_ok by auto
  then obtain best sc where fb: "find_best_match item w used objs = Inr (best, sc)" by auto
  have rest: "w = [] \<or> (\<forall>it \<in> set rest. it ''type'' \<noteq> None)" using Cons.prems by auto
  show ?case
  proof (cases best)
    case None
    then show ?thesis using fb st Cons.IH [OF rest] by simp
  next
    case (Some bm)
    then show ?thesis using fb st Cons.IH [OF rest] by simp
  qed
qed

lemma match_items_empty_wardrobe:
  "match_items items [] (mi, objs, tot, used) = Inr (mi @ map no_match_entry items, objs, tot, used)"
  by (induction items arbitrary: mi) (simp_all add: find_best_match_empty)

lemma match_outfits_ok:
  assumes "\<forall>c \<in> set os. outfit_name c \<noteq> None \<and> clothing_items c \<noteq> None"
    and "w = [] \<or> (\<forall>c \<in> set os. \<forall>it \<in> set (slots c). it ''type'' \<noteq> None)"
  shows "\<exists>new. match_outfits os w (om, used) = Inr (OutfitMatches (om @ new))
           \<and> map (\<lambda>r. length (matched_items r)) new = map (\<lambda>c. length (slots c)) os
           \<and> (w = [] \<longrightarrow> (\<forall>r \<in> set new. \<forall>m \<in> set (matched_items r). mr_item_id m = None \<and> mr_score m = - 1))"
  using assms
proof (induction os arbitrary: om used)
  case Nil
  then show ?case by simp
next
  case (Cons c rest)
  from Cons.prems(1) obtain items name where c: "clothing_items c = Some items" "outfit_name c = Some name"
    by auto
  have sl: "slots c = items" using c by (simp add: slots_def)
  have "w = [] \<or> (\<forall>it \<in> set items. it ''type'' \<noteq> None)" using Cons.prems(2) sl by auto
  from match_items_ok [OF this, of "([], [], 0, used)"]
  obtain mi objs tot used' where mi: "match_items items w ([], [], 0, used) = Inr (mi, objs, tot, used')"
    by (metis prod_cases4)
  have len: "length mi = length items" using match_items_result [OF mi] by auto
  have unm: "\<forall>m \<in> set mi. mr_item_id m = None \<and> mr_score m = - 1" if "w = []"
    using mi that by (auto simp: match_items_empty_wardrobe no_match_entry_def)
  define r where "r = \<lparr> result_outfit_name = name, total_score = tot, matched_items = mi \<rparr>"
  have step: "match_outfits (c # rest) w (om, used) = match_outfits rest w (om @ [r], used')"
    using c mi by (simp add: r_def)
  have p1: "\<forall>c \<in> set rest. outfit_name c \<noteq> None \<and> clothing_items c \<noteq> None" using Cons.prems(1) by simp
  have p2: "w = [] \<or> (\<forall>c \<in> set rest. \<forall>it \<in> set (slots c). it ''type'' \<noteq> None)" using Cons.prems(2) by auto
  from Cons.IH [OF p1 p2, of "om @ [r]" used'] obtain new where n:
    "match_outfits rest w (om @ [r], used') = Inr (OutfitMatches ((om @ [r]) @ new))"
    "map (\<lambda>r. length (matched_items r)) new = map (\<lambda>c. length (slots c)) rest"
    "w = [] \<longrightarrow> (\<forall>r \<in> set new. \<forall>m \<in> set (matched_items r). mr_item_id m = None \<and> mr_score m = - 1)"
    by blast
  have mr: "matched_items r = mi" by (simp add: r_def)
  show ?case
  proof (rule exI [of _ "r # new"], intro conjI)
    show "match_outfits (c # rest) w (om, used) = Inr (OutfitMatches (om @ r # new))"
      unfolding step using n(1) by simp
    show "map (\<lambda>r. length (matched_items r)) (r # new) = map (\<lambda>c. length (slots c)) (c # rest)"
      using n(2) mr len sl by simp
    show "w = [] \<longrightarrow> (\<forall>r \<in> set (r # new). \<forall>m \<in> set (matched_items r). mr_item_id m = None \<and> mr_score m = - 1)"
      using n(3) unm mr by simp
  qed
qed

lemma max_total_score_mem: "max_total_score m ms \<in> set (m # ms)"
  by (induction ms arbitrary: m) auto

section \<open>The properties\<close>

text \<open>
  C1 (as amended). For every outfit result returned by the matcher, \<open>total_score\<close> is
  the sum of the scores of the matched slots only, added up from 0 in slot order: the
  unmatched branch appends an entry with score -1 and leaves \<open>total_score\<close> unchanged.
\<close>

theorem total_score_matched_only:
  assumes "match_outfit_with_wardrobe s w = Inr (OutfitMatches rs)" and "r \<in> set rs"
  shows "total_score r = matched_total (matched_items r)"
proof -
  obtain os where os: "outfit_recommendations s = Some os"
    using assms(1) by (cases "outfit_recommendations s") (auto simp: match_outfit_with_wardrobe_def)
  then have "match_outfits os w ([], {}) = Inr (OutfitMatches rs)"
    using assms(1) by (simp add: match_outfit_with_wardrobe_def)
  from match_outfits_result [OF this] assms(2) show ?thesis by auto
qed

theorem total_score_matched_only_witness:
  "match_outfit_with_wardrobe two_tops [white_top] = Inr (OutfitMatches [two_tops_result])
   \<and> two_tops_result \<in> set [two_tops_result]
   \<and> total_score two_tops_result = matched_total (matched_items two_tops_result)
   \<and> total_score two_tops_result = 7"
proof -
  have m: "two_tops_result \<in> set [two_tops_result]" by simp
  have t: "total_score two_tops_result = 7" by (simp add: two_tops_result_def)
  from total_score_matched_only [OF two_tops_run m] two_tops_run m t show ?thesis by simp
qed

text \<open>
  C1, as stated, fails: one outfit with two "top" slots and a wardrobe with one top. The
  slot scores are 7 and -1, their sum is 6, and \<open>total_score\<close> is 7.
\<close>

theorem total_score_counterexample:
  "match_outfit_with_wardrobe two_tops [white_top] = Inr (OutfitMatches [two_tops_result])
   \<and> map mr_score (matched_items two_tops_result) = [7, - 1]
   \<and> spec_total_score two_tops_result = 6
   \<and> total_score two_tops_result = 7"
  by code_simp

text \<open>
  C2 (as amended). The set of used item ids is created once per call and shared by all
  candidate outfits: an item id assigned to a slot of one outfit is not available to any
  later outfit, so no item id is assigned twice anywhere in the returned list.
\<close>

theorem used_items_shared:
  assumes "match_outfit_with_wardrobe s w = Inr (OutfitMatches rs)"
  shows "distinct (all_assigned_ids rs)"
proof -
  obtain os where os: "outfit_recommendations s = Some os"
    using assms by (cases "outfit_recommendations s") (auto simp: match_outfit_with_wardrobe_def)
  then have "match_outfits os w ([], {}) = Inr (OutfitMatches rs)"
    using assms by (simp add: match_outfit_with_wardrobe_def)
  from match_outfits_result [OF this] show ?thesis by auto
qed

theorem used_items_shared_witness:
  "match_outfit_with_wardrobe same_top_twice [white_top] = Inr (OutfitMatches same_top_twice_results)
   \<and> distinct (all_assigned_ids same_top_twice_results)
   \<and> all_assigned_ids same_top_twice_results = [''A'']"
proof -
  have "all_assigned_ids same_top_twice_results = [''A'']" by code_simp
  with used_items_shared [OF same_top_twice_run] same_top_twice_run show ?thesis by simp
qed

text \<open>
  C2, as stated, fails: two outfits with the same single slot and a wardrobe of one top.
  With an empty set of used items the slot is matched to item A with score 7; in the call,
  the first outfit takes A and the slot of the second outfit is left unmatched.
\<close>

theorem fresh_used_items_counterexample:
  "find_best_match white_top_slot [white_top] {} [] = Inr (Some white_top, 7)
   \<and> assignment (match_outfit_with_wardrobe same_top_twice [white_top]) = [[Some ''A''], [None]]"
  by code_simp

text \<open>
  C3. Within each outfit result returned by the matcher, the item ids of the matched
  entries are pairwise distinct.
\<close>

theorem item_ids_unique_within_outfit:
  assumes "match_outfit_with_wardrobe s w = Inr (OutfitMatches rs)" and "r \<in> set rs"
  shows "distinct (assigned_ids (matched_items r))"
proof -
  obtain os where os: "outfit_recommendations s = Some os"
    using assms(1) by (cases "outfit_recommendations s") (auto simp: match_outfit_with_wardrobe_def)
  then have "match_outfits os w ([], {}) = Inr (OutfitMatches rs)"
    using assms(1) by (simp add: match_outfit_with_wardrobe_def)
  from match_outfits_result [OF this] assms(2) show ?thesis by auto
qed

theorem item_ids_unique_within_outfit_witness:
  "match_outfit_with_wardrobe two_tops [white_top, white_shirt] = Inr (OutfitMatches [two_tops_results_two])
   \<and> two_tops_results_two \<in> set [two_tops_results_two]
   \<and> distinct (assigned_ids (matched_items two_tops_results_two))
   \<and> assigned_ids (matched_items two_tops_results_two) = [''A'', ''S'']"
proof -
  have m: "two_tops_results_two \<in> set [two_tops_results_two]" by simp
  have a: "assigned_ids (matched_items two_tops_results_two) = [''A'', ''S'']" by code_simp
  from item_ids_unique_within_outfit [OF two_tops_two_run m] two_tops_two_run m a show ?thesis by simp
qed

text \<open>
  C4. When the normalized type of the wardrobe item differs from the normalized type (or
  category) of the suggested item, the score is exactly -1, whatever the other attributes.
\<close>

theorem type_mismatch_score:
  "normalize_str (Some (type w)) \<noteq> normalize_str (summary_type s) \<Longrightarrow> get_match_score s w = - 1"
  by (simp add: get_match_score_def)

theorem type_mismatch_score_witness:
  "normalize_str (Some (type blue_jeans)) \<noteq> normalize_str (summary_type blue_top_slot)
     \<and> get_match_score blue_top_slot blue_jeans = - 1"
proof -
  have h: "normalize_str (Some (type blue_jeans)) \<noteq> normalize_str (summary_type blue_top_slot)"
    by code_simp
  from type_mismatch_score [OF h] h show ?thesis by simp
qed

text \<open>
  C5 (as amended). For a slot with a \<open>type\<close> key, \<open>find_best_match\<close> returns the
  unused same-type candidate with the highest penalty-adjusted score when that score is
  greater than -1, the initial \<open>highest_score\<close>; adjusted scores between -1 and 0 are
  accepted. It returns no item exactly when every unused same-type candidate has an
  adjusted score of at most -1, which includes the case of no candidate at all. The
  adjusted score is the \<open>float\<close> the source computes: for item X below the exact value of
  13/6 - 5/3 - 3/2 would be -1, the rounded one is just above -1, and X is assigned.
\<close>

theorem best_match_threshold:
  assumes "s ''type'' = Some ty"
  shows "\<exists>best hi. find_best_match s w used ms = Inr (best, hi)
           \<and> (best = None \<longleftrightarrow> (\<forall>c \<in> set (candidates ty w used). adjusted_score s c ms \<le> - 1))
           \<and> (\<forall>it. best = Some it \<longrightarrow>
                  it \<in> set (candidates ty w used) \<and> hi = adjusted_score s it ms \<and> - 1 < hi
                  \<and> (\<forall>c \<in> set (candidates ty w used). adjusted_score s c ms \<le> hi))"
proof -
  from find_best_match_loop_typed [of s ty w used ms None "- 1"] assms
  obtain b' h' where r: "find_best_match_loop s w used ms (None, - 1) = Inr (b', h')"
    "(b' = None \<and> h' = - 1)
       \<or> (\<exists>it. b' = Some it \<and> it \<in> set (candidates ty w used) \<and> h' = adjusted_score s it ms \<and> - 1 < h')"
    "\<forall>c \<in> set (candidates ty w used). adjusted_score s c ms \<le> h'"
    by blast
  have 1: "find_best_match s w used ms = Inr (b', h')" using r(1) by (simp add: find_best_match_def)
  have 2: "b' = None \<longleftrightarrow> (\<forall>c \<in> set (candidates ty w used). adjusted_score s c ms \<le> - 1)"
    using r(2,3) by fastforce
  have 3: "\<forall>it. b' = Some it \<longrightarrow>
                  it \<in> set (candidates ty w used) \<and> h' = adjusted_score s it ms \<and> - 1 < h'
                  \<and> (\<forall>c \<in> set (candidates ty w used). adjusted_score s c ms \<le> h')"
    using r(2,3) by auto
  from 1 2 3 show ?thesis by blast
qed

theorem best_match_threshold_witness:
  "threshold_slot ''type'' = Some (Some ''top'')
   \<and> candidates (Some ''top'') [item_p, item_q, item_x] {''P'', ''Q''} = [item_x]
   \<and> get_match_score threshold_slot item_x = 2439449798159019 / 1125899906842624
   \<and> adjusted_score threshold_slot item_x [item_p, item_q] = - (4503599627370495 / 4503599627370496)
   \<and> find_best_match threshold_slot [item_p, item_q, item_x] {''P'', ''Q''} [item_p, item_q]
        = Inr (Some item_x, - (4503599627370495 / 4503599627370496))"
proof -
  have h: "threshold_slot ''type'' = Some (Some ''top'')" by (simp add: threshold_slot_def)
  have c: "candidates (Some ''top'') [item_p, item_q, item_x] {''P'', ''Q''} = [item_x]" by code_simp
  have g: "get_match_score threshold_slot item_x = 2439449798159019 / 1125899906842624" by code_simp
  have a: "adjusted_score threshold_slot item_x [item_p, item_q] = - (4503599627370495 / 4503599627370496)"
    by code_simp
  from best_match_threshold [of threshold_slot "Some ''top''" "[item_p, item_q, item_x]" "{''P'', ''Q''}" "[item_p, item_q]"] h
  obtain best hi where r:
    "find_best_match threshold_slot [item_p, item_q, item_x] {''P'', ''Q''} [item_p, item_q] = Inr (best, hi)"
    "best = None \<longleftrightarrow> (\<forall>c \<in> set (candidates (Some ''top'') [item_p, item_q, item_x] {''P'', ''Q''}).
                        adjusted_score threshold_slot c [item_p, item_q] \<le> - 1)"
    "\<forall>it. best = Some it \<longrightarrow>
          it \<in> set (candidates (Some ''top'') [item_p, item_q, item_x] {''P'', ''Q''})
          \<and> hi = adjusted_score threshold_slot it [item_p, item_q]"
    by blast
  from r(2) have "best \<noteq> None" unfolding c using a by simp
  then obtain it where it: "best = Some it" by auto
  with r(3) have "it = item_x" "hi = - (4503599627370495 / 4503599627370496)" unfolding c using a by auto
  with r(1) it h c g a show ?thesis by simp
qed

text \<open>
  C5, as stated, fails: the slot asks for a green striped top; the blue shirt is an unused
  top whose score is the base 1 and whose description equals that of the red shirt already
  matched in the outfit, so the penalty is 2 and the adjusted score is -1, which is not
  greater than the initial -1. The slot gets the "no match" entry although a same-type
  candidate exists.
\<close>

theorem negative_score_counterexample:
  "candidates (Some ''top'') [red_shirt, blue_shirt] {''A''} = [blue_shirt]
   \<and> get_match_score striped_slot blue_shirt = 1
   \<and> adjusted_score striped_slot blue_shirt [red_shirt] = - 1
   \<and> find_best_match striped_slot [red_shirt, blue_shirt] {''A''} [red_shirt] = Inr (None, - 1)
   \<and> assignment (match_outfit_with_wardrobe two_striped [red_shirt, blue_shirt]) = [[Some ''A'', None]]"
  by code_simp

text \<open>
  C6 (as amended). The matcher raises nothing for a malformed suggestion: it returns, as
  its value, a dictionary with the key \<open>"error"\<close>. It does so exactly when the key
  \<open>outfit_recommendations\<close> is absent, or some candidate outfit has no
  \<open>clothing_items\<close> and the outfits before the first such one are processed without
  an exception. When the key is present and every outfit has \<open>clothing_items\<close>, no
  error dictionary is returned.
\<close>

theorem error_dict_returned:
  "((\<exists>msg. match_outfit_with_wardrobe s w = Inr (ErrorDict msg)) \<longleftrightarrow>
      (outfit_recommendations s = None
       \<or> (\<exists>pre c post. outfit_recommendations s = Some (pre @ c # post) \<and> clothing_items c = None
              \<and> (\<forall>p \<in> set pre. clothing_items p \<noteq> None)
              \<and> (\<forall>e. match_outfits pre w ([], {}) \<noteq> Inl e))))
   \<and> (\<forall>os. outfit_recommendations s = Some os \<and> (\<forall>c \<in> set os. clothing_items c \<noteq> None)
         \<longrightarrow> (\<forall>msg. match_outfit_with_wardrobe s w \<noteq> Inr (ErrorDict msg)))"
proof (cases "outfit_recommendations s")
  case None
  then show ?thesis by (simp add: match_outfit_with_wardrobe_def)
next
  case (Some os)
  have m: "match_outfit_with_wardrobe s w = match_outfits os w ([], {})"
    using Some by (simp add: match_outfit_with_wardrobe_def)
  have 1: "(\<exists>msg. match_outfit_with_wardrobe s w = Inr (ErrorDict msg)) \<longleftrightarrow>
      (\<exists>pre c post. os = pre @ c # post \<and> clothing_items c = None
              \<and> (\<forall>p \<in> set pre. clothing_items p \<noteq> None)
              \<and> (\<forall>e. match_outfits pre w ([], {}) \<noteq> Inl e))"
    unfolding m by (rule match_outfits_error_dict)
  have 2: "\<forall>msg. match_outfit_with_wardrobe s w \<noteq> Inr (ErrorDict msg)"
    if "\<forall>c \<in> set os. clothing_items c \<noteq> None"
    using that 1 by auto
  show ?thesis using Some 1 2 by simp
qed

theorem error_dict_returned_witness:
  "outfit_recommendations no_key = None
   \<and> match_outfit_with_wardrobe no_key [white_top] = Inr (ErrorDict ''Invalid outfit suggestion format'')
   \<and> outfit_recommendations missing_items = Some ([casual_outfit] @ bare_outfit # [])
   \<and> clothing_items bare_outfit = None \<and> clothing_items casual_outfit \<noteq> None
   \<and> match_outfits [casual_outfit] [white_top] ([], {})
        = Inr (OutfitMatches [\<lparr> result_outfit_name = ''casual'', total_score = 7,
                                 matched_items = [matched_entry white_top 7 white_top_slot] \<rparr>])
   \<and> match_outfit_with_wardrobe missing_items [white_top]
        = Inr (ErrorDict ''No clothing items in outfit suggestion'')
   \<and> outfit_recommendations two_tops
        = Some [\<lparr> outfit_name = Some ''casual'', clothing_items = Some [white_top_slot, white_top_slot] \<rparr>]
   \<and> match_outfit_with_wardrobe two_tops [white_top] = Inr (OutfitMatches [two_tops_result])"
proof -
  have a: "outfit_recommendations no_key = None" by (simp add: no_key_def)
  have b: "outfit_recommendations missing_items = Some ([casual_outfit] @ bare_outfit # [])"
    "clothing_items bare_outfit = None" "clothing_items casual_outfit \<noteq> None"
    by (simp_all add: missing_items_def bare_outfit_def casual_outfit_def)
  have c: "match_outfits [casual_outfit] [white_top] ([], {})
        = Inr (OutfitMatches [\<lparr> result_outfit_name = ''casual'', total_score = 7,
                                 matched_items = [matched_entry white_top 7 white_top_slot] \<rparr>])"
    by code_simp
  have d: "outfit_recommendations two_tops
        = Some [\<lparr> outfit_name = Some ''casual'', clothing_items = Some [white_top_slot, white_top_slot] \<rparr>]"
    by (simp add: two_tops_def)
  from error_dict_returned [of no_key "[white_top]"] a
  obtain msg1 where m1: "match_outfit_with_wardrobe no_key [white_top] = Inr (ErrorDict msg1)" by blast
  have e1: "match_outfit_with_wardrobe no_key [white_top] = Inr (ErrorDict ''Invalid outfit suggestion format'')"
    using m1 a by (simp add: match_outfit_with_wardrobe_def)
  have ne: "\<forall>e. match_outfits [casual_outfit] [white_top] ([], {}) \<noteq> Inl e"
    unfolding c by simp
  have "outfit_recommendations missing_items = Some ([casual_outfit] @ bare_outfit # [])
          \<and> clothing_items bare_outfit = None
          \<and> (\<forall>p \<in> set [casual_outfit]. clothing_items p \<noteq> None)
          \<and> (\<forall>e. match_outfits [casual_outfit] [white_top] ([], {}) \<noteq> Inl e)"
    using b ne by (simp del: match_outfits.simps)
  then have "\<exists>pre c post. outfit_recommendations missing_items = Some (pre @ c # post) \<and> clothing_items c = None
              \<and> (\<forall>p \<in> set pre. clothing_items p \<noteq> None)
              \<and> (\<forall>e. match_outfits pre [white_top] ([], {}) \<noteq> Inl e)"
    by blast
  with error_dict_returned [of missing_items "[white_top]"]
  obtain msg2 where m2: "match_outfit_with_wardrobe missing_items [white_top] = Inr (ErrorDict msg2)" by blast
  have "match_outfit_with_wardrobe missing_items [white_top]
          = Inr (ErrorDict ''No clothing items in outfit suggestion'')"
    by code_simp
  with m2 have e2: "match_outfit_with_wardrobe missing_items [white_top]
        = Inr (ErrorDict ''No clothing items in outfit suggestion'')"
    by simp
  show ?thesis using a b c d e1 e2 two_tops_run by (simp del: match_outfits.simps)
qed

text \<open>
  C6, as stated, fails: for a suggestion without \<open>outfit_recommendations\<close>, and for
  one whose second outfit has no \<open>clothing_items\<close>, the matcher returns normally
  (\<open>Inr\<close>) with the error dictionary as its result; no exception reaches the caller.
\<close>

theorem error_returned_not_raised_counterexample:
  "match_outfit_with_wardrobe no_key [white_top] = Inr (ErrorDict ''Invalid outfit suggestion format'')
   \<and> match_outfit_with_wardrobe missing_items [white_top]
        = Inr (ErrorDict ''No clothing items in outfit suggestion'')"
  by code_simp

text \<open>
  C7. With an empty list of candidate outfits the matcher returns an empty list and
  \<open>max\<close> raises \<open>ValueError\<close>: the selector fails, which is what the specification
  names NoCandidateOutfits. With at least one outfit, each with its name and its
  \<open>clothing_items\<close>, and an empty wardrobe (or items that all have a \<open>type\<close>, which
  covers empty item lists), the matcher returns one result per outfit with one entry per
  slot and the selector returns a recommendation; with an empty wardrobe every entry is the
  "no match" entry with score -1, and with an empty wardrobe or only empty item lists the
  recommended outfit is empty.
\<close>

theorem zero_candidates_and_empty_inputs:
  "(outfit_recommendations s = Some [] \<longrightarrow> generate_outfit_recommendation u oc s w = Inl ValueError)
   \<and> (outfit_recommendations s = Some os \<and> os \<noteq> []
        \<and> (\<forall>c \<in> set os. outfit_name c \<noteq> None \<and> clothing_items c \<noteq> None)
        \<and> (w = [] \<or> (\<forall>c \<in> set os. \<forall>it \<in> set (slots c). it ''type'' \<noteq> None))
      \<longrightarrow> (\<exists>rs. match_outfit_with_wardrobe s w = Inr (OutfitMatches rs)
              \<and> map (\<lambda>r. length (matched_items r)) rs = map (\<lambda>c. length (slots c)) os
              \<and> (w = [] \<longrightarrow> (\<forall>r \<in> set rs. \<forall>m \<in> set (matched_items r). mr_item_id m = None \<and> mr_score m = - 1)))
          \<and> (\<exists>rec. generate_outfit_recommendation u oc s w = Inr rec
              \<and> (w = [] \<or> (\<forall>c \<in> set os. slots c = []) \<longrightarrow> outfit rec = [])))"
proof (intro conjI impI)
  assume "outfit_recommendations s = Some []"
  then show "generate_outfit_recommendation u oc s w = Inl ValueError"
    by (simp add: generate_outfit_recommendation_def match_outfit_with_wardrobe_def)
next
  assume a: "outfit_recommendations s = Some os \<and> os \<noteq> []
        \<and> (\<forall>c \<in> set os. outfit_name c \<noteq> None \<and> clothing_items c \<noteq> None)
        \<and> (w = [] \<or> (\<forall>c \<in> set os. \<forall>it \<in> set (slots c). it ''type'' \<noteq> None))"
  then have m: "match_outfit_with_wardrobe s w = match_outfits os w ([], {})"
    by (simp add: match_outfit_with_wardrobe_def)
  from a match_outfits_ok [of os w "[]" "{}"] obtain rs where rs:
    "match_outfits os w ([], {}) = Inr (OutfitMatches rs)"
    "map (\<lambda>r. length (matched_items r)) rs = map (\<lambda>c. length (slots c)) os"
    "w = [] \<longrightarrow> (\<forall>r \<in> set rs. \<forall>m \<in> set (matched_items r). mr_item_id m = None \<and> mr_score m = - 1)"
    by auto
  show "\<exists>rs. match_outfit_with_wardrobe s w = Inr (OutfitMatches rs)
              \<and> map (\<lambda>r. length (matched_items r)) rs = map (\<lambda>c. length (slots c)) os
              \<and> (w = [] \<longrightarrow> (\<forall>r \<in> set rs. \<forall>m \<in> set (matched_items r). mr_item_id m = None \<and> mr_score m = - 1))"
    unfolding m using rs by blast
  have "length rs = length os" using rs(2) by (metis length_map)
  then obtain r0 rest where r0: "rs = r0 # rest" using a by (cases rs) auto
  define best where "best = max_total_score r0 rest"
  define rec where "rec = \<lparr> user_id = u, occasion = oc,
      outfit = filter (\<lambda>item. Some (item_id item) \<in> set (map mr_item_id (matched_items best))) w \<rparr>"
  have g: "generate_outfit_recommendation u oc s w = Inr rec"
    unfolding generate_outfit_recommendation_def m rs(1) r0 by (simp add: rec_def best_def Let_def)
  have "outfit rec = []" if e: "\<forall>c \<in> set os. slots c = []"
  proof -
    have "\<forall>r \<in> set rs. length (matched_items r) = 0"
    proof
      fix r assume "r \<in> set rs"
      then have "length (matched_items r) \<in> set (map (\<lambda>c. length (slots c)) os)"
        using rs(2) by (metis (no_types, lifting) image_eqI list.set_map)
      then show "length (matched_items r) = 0" using e by auto
    qed
    moreover have "best \<in> set rs" unfolding best_def r0 by (rule max_total_score_mem)
    ultimately have "matched_items best = []" by auto
    then show ?thesis by (simp add: rec_def)
  qed
  moreover have "outfit rec = []" if "w = []" using that by (simp add: rec_def)
  ultimately show "\<exists>rec. generate_outfit_recommendation u oc s w = Inr rec
              \<and> (w = [] \<or> (\<forall>c \<in> set os. slots c = []) \<longrightarrow> outfit rec = [])"
    using g by blast
qed

theorem zero_candidates_and_empty_inputs_witness:
  "outfit_recommendations no_outfits = Some []
   \<and> generate_outfit_recommendation ''u'' ''party'' no_outfits [white_top] = Inl ValueError
   \<and> outfit_recommendations two_tops = Some [two_tops_outfit] \<and> [two_tops_outfit] \<noteq> []
   \<and> outfit_name two_tops_outfit \<noteq> None \<and> clothing_items two_tops_outfit \<noteq> None
   \<and> match_outfit_with_wardrobe two_tops []
        = Inr (OutfitMatches [\<lparr> result_outfit_name = ''casual'', total_score = 0,
              matched_items = [no_match_entry white_top_slot, no_match_entry white_top_slot] \<rparr>])
   \<and> generate_outfit_recommendation ''u'' ''party'' two_tops []
        = Inr \<lparr> user_id = ''u'', occasion = ''party'', outfit = [] \<rparr>
   \<and> outfit_recommendations one_empty_outfit = Some [empty_outfit]
   \<and> outfit_name empty_outfit \<noteq> None \<and> clothing_items empty_outfit \<noteq> None \<and> slots empty_outfit = []
   \<and> match_outfit_with_wardrobe one_empty_outfit [white_top]
        = Inr (OutfitMatches [\<lparr> result_outfit_name = ''casual'', total_score = 0, matched_items = [] \<rparr>])
   \<and> generate_outfit_recommendation ''u'' ''party'' one_empty_outfit [white_top]
        = Inr \<lparr> user_id = ''u'', occasion = ''party'', outfit = [] \<rparr>"
proof -
  have a: "outfit_recommendations no_outfits = Some []" by (simp add: no_outfits_def)
  have b: "outfit_recommendations two_tops = Some [two_tops_outfit]"
    "outfit_name two_tops_outfit \<noteq> None" "clothing_items two_tops_outfit \<noteq> None"
    by (simp_all add: two_tops_def two_tops_outfit_def)
  have c: "outfit_recommendations one_empty_outfit = Some [empty_outfit]"
    "outfit_name empty_outfit \<noteq> None" "clothing_items empty_outfit \<noteq> None" "slots empty_outfit = []"
    by (simp_all add: one_empty_outfit_def empty_outfit_def slots_def)
  have 1: "generate_outfit_recommendation ''u'' ''party'' no_outfits [white_top] = Inl ValueError"
    using zero_candidates_and_empty_inputs [of no_outfits "''u''" "''party''" "[white_top]"] a by blast
  from zero_candidates_and_empty_inputs [of two_tops "''u''" "''party''" "[]" "[two_tops_outfit]"] b
  obtain rec where r: "generate_outfit_recommendation ''u'' ''party'' two_tops [] = Inr rec" "outfit rec = []"
    by auto
  have "generate_outfit_recommendation ''u'' ''party'' two_tops []
        = Inr \<lparr> user_id = ''u'', occasion = ''party'', outfit = [] \<rparr>"
    by code_simp
  with r have 2: "generate_outfit_recommendation ''u'' ''party'' two_tops []
        = Inr \<lparr> user_id = ''u'', occasion = ''party'', outfit = [] \<rparr>"
    by simp
  have 3: "match_outfit_with_wardrobe two_tops []
        = Inr (OutfitMatches [\<lparr> result_outfit_name = ''casual'', total_score = 0,
              matched_items = [no_match_entry white_top_slot, no_match_entry white_top_slot] \<rparr>])"
    by code_simp
  from zero_candidates_and_empty_inputs [of one_empty_outfit "''u''" "''party''" "[white_top]" "[empty_outfit]"] c
  obtain rec' where r': "generate_outfit_recommendation ''u'' ''party'' one_empty_outfit [white_top] = Inr rec'"
    "outfit rec' = []"
    by auto
  have "generate_outfit_recommendation ''u'' ''party'' one_empty_outfit [white_top]
        = Inr \<lparr> user_id = ''u'', occasion = ''party'', outfit = [] \<rparr>"
    by code_simp
  with r' have 4: "generate_outfit_recommendation ''u'' ''party'' one_empty_outfit [white_top]
        = Inr \<lparr> user_id = ''u'', occasion = ''party'', outfit = [] \<rparr>"
    by simp
  have 5: "match_outfit_with_wardrobe one_empty_outfit [white_top]
        = Inr (OutfitMatches [\<lparr> result_outfit_name = ''casual'', total_score = 0, matched_items = [] \<rparr>])"
    by code_simp
  show ?thesis using a b c 1 2 3 4 5 by simp
qed

text \<open>
  C8 fails on the code. For the suggested item \<open>{"category": "top"}\<close> and a wardrobe
  with one top, \<open>get_match_score\<close> resolves the category and scores 7, but
  \<open>find_best_match\<close> reads \<open>suggested_item["type"]\<close> and raises \<open>KeyError\<close>,
  and so does the matcher; with the key \<open>type\<close> the same slot is matched.
\<close>

theorem category_fallback_missing:
  "get_match_score category_slot plain_top = 7
   \<and> find_best_match category_slot [plain_top] {} [] = Inl KeyError
   \<and> match_outfit_with_wardrobe category_only [plain_top] = Inl KeyError
   \<and> find_best_match plain_top_slot [plain_top] {} [] = Inr (Some plain_top, 7)"
  by code_simp

text \<open>
  C9. For a pair that matches on type: when both colours normalize to the empty string
  the score contains the base 1 and the colour bonus 2; when both patterns normalize to the
  empty string it contains the pattern bonus 4; and when, besides, one of the fabrics normalizes to
  the empty string and one of the descriptions is \<open>None\<close> or empty, as for a pair that
  gives no attribute but the type, the score is 7.
\<close>

theorem empty_attributes_match:
  assumes "normalize_str (Some (type w)) = normalize_str (summary_type s)"
  shows "(normalize_str (color w) = [] \<and> normalize_str (get_or_empty s ''color'') = [] \<longrightarrow>
            get_match_score s w =
              fadd (1 + 2
              + (if normalize_str (pattern w) = normalize_str (get_or_empty s ''pattern'') then 4 else 0)
              + (if normalize_str (fabric w) \<noteq> [] \<and> normalize_str (get_or_empty s ''fabric'') \<noteq> []
                    \<and> (sublist (normalize_str (fabric w)) (normalize_str (get_or_empty s ''fabric''))
                        \<or> sublist (normalize_str (get_or_empty s ''fabric'')) (normalize_str (fabric w)))
                 then 3 else 0))
              (fmul (get_text_similarity (description w) (get_or_empty s ''description'')) (3 / 2)))
       \<and> (normalize_str (pattern w) = [] \<and> normalize_str (get_or_empty s ''pattern'') = [] \<longrightarrow>
            get_match_score s w =
              fadd (1 + (if normalize_str (color w) = normalize_str (get_or_empty s ''color'') then 2 else 0)
              + 4
              + (if normalize_str (fabric w) \<noteq> [] \<and> normalize_str (get_or_empty s ''fabric'') \<noteq> []
                    \<and> (sublist (normalize_str (fabric w)) (normalize_str (get_or_empty s ''fabric''))
                        \<or> sublist (normalize_str (get_or_empty s ''fabric'')) (normalize_str (fabric w)))
                 then 3 else 0))
              (fmul (get_text_similarity (description w) (get_or_empty s ''description'')) (3 / 2)))
       \<and> (normalize_str (color w) = [] \<and> normalize_str (get_or_empty s ''color'') = []
            \<and> normalize_str (pattern w) = [] \<and> normalize_str (get_or_empty s ''pattern'') = []
            \<and> (normalize_str (fabric w) = [] \<or> normalize_str (get_or_empty s ''fabric'') = [])
            \<and> (falsy (description w) \<or> falsy (get_or_empty s ''description'')) \<longrightarrow>
            get_match_score s w = 7)"
  using assms
  by (auto simp add: get_match_score_def Let_def get_text_similarity_def fadd_def fmul_def fl_scores)

theorem empty_attributes_match_witness:
  "normalize_str (Some (type plain_top)) = normalize_str (summary_type plain_top_slot)
   \<and> normalize_str (color plain_top) = [] \<and> normalize_str (get_or_empty plain_top_slot ''color'') = []
   \<and> normalize_str (pattern plain_top) = [] \<and> normalize_str (get_or_empty plain_top_slot ''pattern'') = []
   \<and> normalize_str (fabric plain_top) = []
   \<and> falsy (description plain_top)
   \<and> get_match_score plain_top_slot plain_top = 7"
proof -
  have h: "normalize_str (Some (type plain_top)) = normalize_str (summary_type plain_top_slot)"
    by code_simp
  have n: "normalize_str (color plain_top) = [] \<and> normalize_str (get_or_empty plain_top_slot ''color'') = []
   \<and> normalize_str (pattern plain_top) = [] \<and> normalize_str (get_or_empty plain_top_slot ''pattern'') = []
   \<and> normalize_str (fabric plain_top) = []
   \<and> falsy (description plain_top)"
    by code_simp
  from empty_attributes_match [OF h] n h show ?thesis by blast
qed

text \<open>
  C10. Two descriptions that are not empty but normalize to the empty string have
  similarity 1, the ratio of two empty sequences, and earn the description bonus 1.5; the
  similarity is 0 by the guard only when one of them is \<open>None\<close> or empty before
  normalization.
\<close>

theorem stripped_descriptions_similarity:
  assumes "\<not> falsy d1" and "\<not> falsy d2" and "normalize_str d1 = []" and "normalize_str d2 = []"
  shows "get_text_similarity d1 d2 = 1
         \<and> (normalize_str (Some (type w)) = normalize_str (summary_type s) \<and> description w = d1
              \<and> s ''description'' = Some d2
            \<longrightarrow> get_match_score s w = get_match_score (s(''description'' := None)) w + 3 / 2)
         \<and> (\<forall>x y. falsy x \<or> falsy y \<longrightarrow> get_text_similarity x y = 0)"
proof (intro conjI impI allI)
  show sim: "get_text_similarity d1 d2 = 1"
    using assms by (simp add: get_text_similarity_def ratio_empty)
  show "get_text_similarity x y = 0" if "falsy x \<or> falsy y" for x y
    using that by (simp add: get_text_similarity_def)
  show "get_match_score s w = get_match_score (s(''description'' := None)) w + 3 / 2"
    if h: "normalize_str (Some (type w)) = normalize_str (summary_type s) \<and> description w = d1 \<and> s ''description'' = Some d2"
  proof -
    have g: "get_or_empty s ''description'' = d2" using h by (simp add: get_or_empty_def)
    have t: "summary_type (s(''description'' := None)) = summary_type s"
      by (simp add: summary_type_def get_or_empty_def split: option.splits)
    have e: "get_or_empty (s(''description'' := None)) ''description'' = Some []"
      by (simp add: get_or_empty_def)
    have o: "get_or_empty (s(''description'' := None)) k = get_or_empty s k" if "k \<noteq> ''description''" for k
      using that by (simp add: get_or_empty_def)
    have z: "get_text_similarity x (Some []) = 0" for x
      by (simp add: get_text_similarity_def falsy_def)
    show ?thesis
      using h sim by (simp add: get_match_score_def t e o g z Let_def fadd_def fmul_def fl_scores)
  qed
qed

theorem stripped_descriptions_similarity_witness:
  "\<not> falsy (Some ''!!!'') \<and> \<not> falsy (Some ''???'') \<and> normalize_str (Some ''!!!'') = [] \<and> normalize_str (Some ''???'') = []
   \<and> get_text_similarity (Some ''!!!'') (Some ''???'') = 1
   \<and> normalize_str (Some (type dashes_top)) = normalize_str (summary_type dashes_slot)
   \<and> description dashes_top = Some ''!!!'' \<and> dashes_slot ''description'' = Some (Some ''???'')
   \<and> get_match_score dashes_slot dashes_top = get_match_score (dashes_slot(''description'' := None)) dashes_top + 3 / 2
   \<and> get_match_score dashes_slot dashes_top = 17 / 2
   \<and> falsy (Some []) \<and> get_text_similarity (Some []) (Some ''???'') = 0"
proof -
  have a: "\<not> falsy (Some ''!!!'')" "\<not> falsy (Some ''???'')" "normalize_str (Some ''!!!'') = []" "normalize_str (Some ''???'') = []"
    by code_simp+
  have b: "normalize_str (Some (type dashes_top)) = normalize_str (summary_type dashes_slot) \<and> description dashes_top = Some ''!!!''
     \<and> dashes_slot ''description'' = Some (Some ''???'')"
    by code_simp
  have c: "get_match_score dashes_slot dashes_top = 17 / 2" by code_simp
  have d: "falsy (Some [])" by code_simp
  from stripped_descriptions_similarity [OF a, of dashes_top dashes_slot] a b c d show ?thesis by blast
qed

end
